theory Spec2Isabelle
  imports Main "HOL-Library.AList"
begin

section \<open>Python strings\<close>

text \<open>
  A Python \<open>str\<close> is modelled as a \<open>string\<close> whose characters are the code points
  U+0000 .. U+00FF: \<open>of_char c\<close> is the code point of \<open>c\<close>. Whitespace, lower-casing,
  decimal digits and \<open>repr\<close> below are the ones CPython uses on that range. Text with code
  points above U+00FF is outside the model.
\<close>

definition isspace :: "char \<Rightarrow> bool" where
  \<comment> \<open>\<open>str.isspace\<close> on one character: the set \<open>str.strip()\<close> and \<open>str.split()\<close> use\<close>
  "isspace c = ((of_char c :: nat) \<in> {9, 10, 11, 12, 13, 28, 29, 30, 31, 32, 133, 160})"

definition strip :: "string \<Rightarrow> string" where
  \<comment> \<open>\<open>text.strip()\<close>\<close>
  "strip s = rev (dropWhile isspace (rev (dropWhile isspace s)))"

fun split_from :: "string \<Rightarrow> string \<Rightarrow> string list" where
  \<comment> \<open>the scan of \<open>text.split()\<close>: the first argument is the token read so far\<close>
  "split_from cur [] = (if cur = [] then [] else [cur])"
| "split_from cur (c # cs) =
     (if isspace c then (if cur = [] then split_from [] cs else cur # split_from [] cs)
      else split_from (cur @ [c]) cs)"

definition split :: "string \<Rightarrow> string list" where
  \<comment> \<open>\<open>text.split()\<close>: maximal runs of non-whitespace\<close>
  "split s = split_from [] s"

fun join :: "string list \<Rightarrow> string" where
  \<comment> \<open>\<open>' '.join(xs)\<close>\<close>
  "join [] = []"
| "join [x] = x"
| "join (x # y # ys) = x @ CHR '' '' # join (y # ys)"

definition lower_char :: "char \<Rightarrow> char" where
  "lower_char c =
     (let n = (of_char c :: nat)
      in if (65 \<le> n \<and> n \<le> 90) \<or> (192 \<le> n \<and> n \<le> 222 \<and> n \<noteq> 215)
         then char_of (n + 32) else c)"

definition lower :: "string \<Rightarrow> string" where
  \<comment> \<open>\<open>s.lower()\<close>\<close>
  "lower s = map lower_char s"

definition startswith_slash :: "string \<Rightarrow> bool" where
  \<comment> \<open>\<open>text.startswith('/')\<close>\<close>
  "startswith_slash s = (case s of [] \<Rightarrow> False | c # _ \<Rightarrow> c = CHR ''/'')"

subsection \<open>\<open>str()\<close> of an integer, \<open>repr()\<close> of a string\<close>

definition digit_char :: "nat \<Rightarrow> char" where
  "digit_char d = char_of (48 + d)"

fun str_nat :: "nat \<Rightarrow> string" where
  "str_nat n = (if n < 10 then [digit_char n] else str_nat (n div 10) @ [digit_char (n mod 10)])"

declare str_nat.simps [simp del]

definition str_int :: "int \<Rightarrow> string" where
  \<comment> \<open>\<open>str(i)\<close>\<close>
  "str_int i = (if i < 0 then CHR ''-'' # str_nat (nat (- i)) else str_nat (nat i))"

definition hex_char :: "nat \<Rightarrow> char" where
  "hex_char d = (if d < 10 then char_of (48 + d) else char_of (87 + d))"

definition printable :: "char \<Rightarrow> bool" where
  \<comment> \<open>\<open>str.isprintable\<close> on one character\<close>
  "printable c =
     (let n = (of_char c :: nat) in 32 \<le> n \<and> n \<noteq> 173 \<and> \<not> (127 \<le> n \<and> n \<le> 160))"

definition repr_char :: "char \<Rightarrow> char \<Rightarrow> string" where
  \<comment> \<open>one character inside \<open>repr(s)\<close>; the first argument is the quote chosen\<close>
  "repr_char q c =
     (if c = q \<or> c = CHR 0x5C then [CHR 0x5C, c]
      else if c = CHR 0x09 then [CHR 0x5C, CHR ''t'']
      else if c = CHR 0x0A then [CHR 0x5C, CHR ''n'']
      else if c = CHR 0x0D then [CHR 0x5C, CHR ''r'']
      else if printable c then [c]
      else [CHR 0x5C, CHR ''x'', hex_char ((of_char c :: nat) div 16),
            hex_char ((of_char c :: nat) mod 16)])"

definition repr :: "string \<Rightarrow> string" where
  \<comment> \<open>\<open>repr(s)\<close>: double quotes only when \<open>s\<close> has a single quote and no double quote\<close>
  "repr s =
     (let q = (if CHR 0x27 \<in> set s \<and> CHR 0x22 \<notin> set s then CHR 0x22 else CHR 0x27)
      in q # concat (map (repr_char q) s) @ [q])"

section \<open>Exceptions\<close>

text \<open>
  An exception is its class and the text \<open>str(e)\<close>. \<open>SystemExit\<close>, \<open>KeyboardInterrupt\<close> and
  \<open>CancelledError\<close> derive from \<open>BaseException\<close> only, so \<open>except Exception\<close> does not
  catch them; \<open>SystemExit\<close> is what \<open>SystemManager.shutdown_system\<close> raises through
  \<open>sys.exit(0)\<close>. \<open>UserException\<close> stands for any other class derived from \<open>Exception\<close>.
\<close>

datatype exc_class =
    ValueError | KeyError | IndexError | AttributeError | TypeError | OSError
  | UserException string
  | SystemExit | KeyboardInterrupt | CancelledError

datatype py_exc = Exc exc_class string

fun exc_str :: "py_exc \<Rightarrow> string" where
  \<comment> \<open>\<open>str(e)\<close>, as \<open>f"{e}"\<close> formats it\<close>
  "exc_str (Exc _ m) = m"

fun is_Exception :: "py_exc \<Rightarrow> bool" where
  \<comment> \<open>\<open>isinstance(e, Exception)\<close>\<close>
  "is_Exception (Exc SystemExit _) = False"
| "is_Exception (Exc KeyboardInterrupt _) = False"
| "is_Exception (Exc CancelledError _) = False"
| "is_Exception (Exc _ _) = True"

subsection \<open>\<open>int(s)\<close>\<close>

definition is_digit :: "char \<Rightarrow> bool" where
  "is_digit c = (48 \<le> (of_char c :: nat) \<and> (of_char c :: nat) \<le> 57)"

definition digit_val :: "char \<Rightarrow> nat" where
  "digit_val c = of_char c - 48"

fun more_digits :: "nat \<Rightarrow> string \<Rightarrow> nat option" where
  \<comment> \<open>the literal after a digit: digits, each optionally preceded by one underscore\<close>
  "more_digits acc [] = Some acc"
| "more_digits acc [c] = (if is_digit c then Some (10 * acc + digit_val c) else None)"
| "more_digits acc (c # d # cs) =
     (if is_digit c then more_digits (10 * acc + digit_val c) (d # cs)
      else if c = CHR ''_'' \<and> is_digit d then more_digits (10 * acc + digit_val d) cs
      else None)"

definition int_literal :: "string \<Rightarrow> int option" where
  \<comment> \<open>optional sign, then a digit, then \<open>more_digits\<close>\<close>
  "int_literal s =
     (let neg = (case s of [] \<Rightarrow> False | c # _ \<Rightarrow> c = CHR ''-'');
          body = (case s of [] \<Rightarrow> [] | c # r \<Rightarrow> if c = CHR ''-'' \<or> c = CHR ''+'' then r else s)
      in case body of
           [] \<Rightarrow> None
         | d # r \<Rightarrow>
             if is_digit d
             then (case more_digits (digit_val d) r of
                     None \<Rightarrow> None
                   | Some n \<Rightarrow> Some (if neg then - int n else int n))
             else None)"

definition py_int :: "string \<Rightarrow> py_exc + int" where
  \<comment> \<open>\<open>int(s)\<close> in base 10: surrounding whitespace is ignored; anything that is not a literal
      raises \<open>ValueError\<close>, whose text shows at most 200 characters of \<open>repr(s)\<close>. The
      interpreter's limit on the number of digits is taken to be switched off.\<close>
  "py_int s =
     (case int_literal (strip s) of
        Some i \<Rightarrow> Inr i
      | None \<Rightarrow>
          Inl (Exc ValueError (''invalid literal for int() with base 10: '' @ take 200 (repr s))))"

section \<open>Data model\<close>

datatype py_val = PNone | PBool bool | PInt int | PStr string

fun py_str :: "py_val \<Rightarrow> string" where
  \<comment> \<open>\<open>str(v)\<close>\<close>
  "py_str PNone = ''None''"
| "py_str (PBool b) = (if b then ''True'' else ''False'')"
| "py_str (PInt i) = str_int i"
| "py_str (PStr s) = s"

type_synonym timestamp = int

text \<open>
  The message dictionary that \<open>extract_message_info\<close> builds and that travels as
  \<open>context\<close>: one field per key, \<open>None\<close> where the key is absent, so that
  \<open>d.get(key, default)\<close> is a case distinction on the field.
\<close>

record message_info =
  mi_chat_id :: "py_val option"
  mi_user_id :: "py_val option"
  mi_username :: "py_val option"
  mi_text :: "string option"
  mi_message_id :: "int option"
  mi_date :: "timestamp option"
  mi_is_recent :: "bool option"

definition dict_truthy :: "message_info \<Rightarrow> bool" where
  \<comment> \<open>a dictionary is true when it has a key\<close>
  "dict_truthy m =
     (mi_chat_id m \<noteq> None \<or> mi_user_id m \<noteq> None \<or> mi_username m \<noteq> None \<or>
      mi_text m \<noteq> None \<or> mi_message_id m \<noteq> None \<or> mi_date m \<noteq> None \<or>
      mi_is_recent m \<noteq> None)"

text \<open>
  The argument bag of a command: a dictionary in insertion order, \<open>d[k] = v\<close> being
  \<open>AList.update k v d\<close>.
\<close>

datatype arg_val = AStr string | AInt int | ANone | ACtx message_info

type_synonym args = "(string \<times> arg_val) list"

text \<open>
  The response dictionary: one field per key, \<open>None\<close> where the key is absent. Of \<open>data\<close>
  only string-valued entries are modelled (the adapter reads the artifact path alone).
\<close>

record response =
  success :: "bool option"
  message :: "string option"
  data :: "(string \<times> string) list option"
  handler :: "string option"

section \<open>\<open>CommandRouter.parse_command\<close>\<close>

definition generic_args :: "string list \<Rightarrow> args" where
  \<comment> \<open>\<open>for i in range(1, len(parts)): args[f'arg{i}'] = parts[i]\<close>\<close>
  "generic_args parts =
     fold (\<lambda>i a. AList.update (''arg'' @ str_nat i) (AStr (parts ! i)) a) [1 ..< length parts] []"

definition shape_args :: "string \<Rightarrow> string list \<Rightarrow> py_exc + args option" where
  \<comment> \<open>the \<open>if\<close>/\<open>elif\<close> chain of \<open>parse_command\<close>, reached with \<open>len(parts) \<noteq> 1\<close>\<close>
  "shape_args command parts =
     (if command \<in> set [''run'', ''exec'', ''run_screen'']
      then Inr (Some [(''command'', AStr (join (drop 1 parts)))])
      else if command \<in> set [''kill'']
      then Inr (Some [(''target'', if length parts > 1 then AStr (parts ! 1) else ANone)])
      else if command \<in> set [''ps'', ''list''] \<and> length parts > 1
      then Inr (Some [(''filter'', AStr (parts ! 1))])
      else if command = ''set_password'' \<and> length parts > 1
      then (if length parts > 2
            then (case py_int (parts ! 2) of
                    Inl e \<Rightarrow> Inl e
                  | Inr k \<Rightarrow> Inr (Some [(''password'', AStr (parts ! 1)), (''xor_key'', AInt k)]))
            else Inr (Some [(''password'', AStr (parts ! 1)), (''xor_key'', ANone)]))
      else if command = ''log'' \<and> length parts > 1
      then Inr (Some [(''api_key'', AStr (parts ! 1))])
      else if command = ''cleanup'' \<and> length parts > 1
      then (case py_int (parts ! 1) of
              Inl e \<Rightarrow> (case e of Exc ValueError _ \<Rightarrow> Inr None | _ \<Rightarrow> Inl e)
            | Inr h \<Rightarrow> Inr (Some [(''max_age_hours'', AInt h)]))
      else (let a = generic_args parts in Inr (if a = [] then None else Some a)))"

definition parse_command :: "string \<Rightarrow> py_exc + (string \<times> args option)" where
  "parse_command text0 =
     (let text1 = strip text0;
          text2 = (if startswith_slash text1 then drop 1 text1 else text1)
      in if text2 = [] then Inr ('''', None)
         else (let parts = split text2
               in case parts of
                    [] \<Rightarrow> Inl (Exc IndexError ''list index out of range'')
                  | p0 # _ \<Rightarrow>
                      (let command = lower p0
                       in if length parts = 1 then Inr (command, None)
                          else (case shape_args command parts of
                                  Inl e \<Rightarrow> Inl e
                                | Inr a \<Rightarrow> Inr (command, a)))))"

section \<open>\<open>CommandRouter\<close>\<close>

text \<open>
  A handler, as the router uses it: its \<open>name\<close>, the list \<open>get_supported_commands()\<close>
  returns, and \<open>handle(command, args)\<close>, which returns a response or raises.
\<close>

record command_handler =
  name :: string
  get_supported_commands :: "string list"
  handle :: "string \<Rightarrow> args \<Rightarrow> py_exc + response"

record router =
  handlers :: "(string \<times> command_handler) list"
  command_map :: "(string \<times> string) list"

definition CommandRouter_init :: router where
  "CommandRouter_init = \<lparr>handlers = [], command_map = []\<rparr>"

definition register_handler :: "router \<Rightarrow> command_handler \<Rightarrow> router" where
  "register_handler r h =
     r\<lparr>handlers := AList.update (name h) h (handlers r),
       command_map :=
         fold (\<lambda>command m. AList.update command (name h) m) (get_supported_commands h)
           (command_map r)\<rparr>"

definition dict_del :: "string \<Rightarrow> (string \<times> 'v) list \<Rightarrow> py_exc + (string \<times> 'v) list" where
  \<comment> \<open>\<open>del d[k]\<close>: \<open>KeyError\<close> when the key is absent\<close>
  "dict_del k d =
     (if k \<in> fst ` set d then Inr (AList.delete k d) else Inl (Exc KeyError (repr k)))"

fun del_all :: "string list \<Rightarrow> (string \<times> 'v) list \<Rightarrow> py_exc + (string \<times> 'v) list" where
  \<comment> \<open>\<open>for command in commands_to_remove: del self.command_map[command]\<close>\<close>
  "del_all [] d = Inr d"
| "del_all (k # ks) d = (case dict_del k d of Inl e \<Rightarrow> Inl e | Inr d' \<Rightarrow> del_all ks d')"

definition unregister_handler :: "router \<Rightarrow> string \<Rightarrow> py_exc + (bool \<times> router)" where
  "unregister_handler r handler_name =
     (if handler_name \<notin> fst ` set (handlers r) then Inr (False, r)
      else (let commands_to_remove =
                  map fst (filter (\<lambda>(command, mapped_handler). mapped_handler = handler_name)
                             (command_map r))
            in case del_all commands_to_remove (command_map r) of
                 Inl e \<Rightarrow> Inl e
               | Inr cm \<Rightarrow>
                   (case dict_del handler_name (handlers r) of
                      Inl e \<Rightarrow> Inl e
                    | Inr hs \<Rightarrow> Inr (True, r\<lparr>handlers := hs, command_map := cm\<rparr>))))"

definition create_error_response :: "string \<Rightarrow> response" where
  \<comment> \<open>\<open>_create_error_response\<close>: the keys \<open>success\<close>, \<open>message\<close> and \<open>handler\<close>\<close>
  "create_error_response msg =
     \<lparr>success = Some False, message = Some msg, data = None, handler = Some ''router''\<rparr>"

text \<open>
  \<open>route_command\<close> returns a response or lets an exception through, and it calls handlers.
  The model returns both: the outcome, and the list of the calls \<open>handler.handle(command,
  args)\<close> made, each with the handler object called. \<open>route_try\<close> is the body of the
  \<open>try\<close>, \<open>route_command\<close> adds the \<open>except Exception\<close> clause.
\<close>

type_synonym handler_call = "command_handler \<times> string \<times> args"

definition route_try ::
  "router \<Rightarrow> string \<Rightarrow> message_info option \<Rightarrow> (py_exc + response) \<times> handler_call list" where
  "route_try r text0 context =
     (case parse_command text0 of
        Inl e \<Rightarrow> (Inl e, [])
      | Inr (command, parsed) \<Rightarrow>
          if command = [] then (Inr (create_error_response ''Empty command''), [])
          else
            (let args0 = (case parsed of None \<Rightarrow> [] | Some a \<Rightarrow> a);
                 args1 = (case context of
                            None \<Rightarrow> args0
                          | Some c \<Rightarrow>
                              if dict_truthy c then AList.update ''_context'' (ACtx c) args0
                              else args0)
             in case map_of (command_map r) command of
                  None \<Rightarrow> (Inr (create_error_response (''Unknown command: '' @ command)), [])
                | Some handler_name \<Rightarrow>
                    (case map_of (handlers r) handler_name of
                       None \<Rightarrow> (Inl (Exc KeyError (repr handler_name)), [])
                     | Some h \<Rightarrow> (handle h command args1, [(h, command, args1)]))))"

definition route_command ::
  "router \<Rightarrow> string \<Rightarrow> message_info option \<Rightarrow> (py_exc + response) \<times> handler_call list" where
  "route_command r text0 context =
     (case route_try r text0 context of
        (Inl e, calls) \<Rightarrow>
          if is_Exception e
          then (Inr (create_error_response (''Routing error: '' @ exc_str e)), calls)
          else (Inl e, calls)
      | (Inr resp, calls) \<Rightarrow> (Inr resp, calls))"

text \<open>A registry is built from the empty one by registering and unregistering.\<close>

datatype registry_op = Register command_handler | Unregister string

fun apply_op :: "router \<Rightarrow> registry_op \<Rightarrow> py_exc + router" where
  "apply_op r (Register h) = Inr (register_handler r h)"
| "apply_op r (Unregister n) =
     (case unregister_handler r n of Inl e \<Rightarrow> Inl e | Inr (_, r') \<Rightarrow> Inr r')"

fun apply_ops :: "router \<Rightarrow> registry_op list \<Rightarrow> py_exc + router" where
  \<comment> \<open>the calls in order, stopping at the first that raises\<close>
  "apply_ops r [] = Inr r"
| "apply_ops r (x # xs) = (case apply_op r x of Inl e \<Rightarrow> Inl e | Inr r' \<Rightarrow> apply_ops r' xs)"

section \<open>Adapters\<close>

text \<open>
  The platform event as \<open>TelegramAdapter.extract_message_info\<close> reads it: the chat, the
  user and the message of an update, each of which may be missing.
\<close>

record tg_user =
  u_id :: int
  u_username :: "string option"

record tg_message =
  m_text :: "string option"
  m_message_id :: int
  m_date :: timestamp

record tg_update =
  effective_chat :: "int option"
  effective_user :: "tg_user option"
  upd_message :: "tg_message option"

record adapter =
  bot_token :: string
  authorized_chat_id :: string
  bot_start_time :: timestamp
  message_handler :: "(string \<Rightarrow> message_info \<Rightarrow> py_exc + response) option"

definition TelegramAdapter_init :: "string \<Rightarrow> py_val \<Rightarrow> timestamp \<Rightarrow> adapter" where
  \<comment> \<open>\<open>__init__(bot_token, authorized_chat_id)\<close>; the third argument is \<open>datetime.now\<close>\<close>
  "TelegramAdapter_init token chat now =
     \<lparr>bot_token = token, authorized_chat_id = py_str chat, bot_start_time = now,
      message_handler = None\<rparr>"

definition set_message_handler ::
  "adapter \<Rightarrow> (string \<Rightarrow> message_info \<Rightarrow> py_exc + response) \<Rightarrow> adapter" where
  "set_message_handler a h = a\<lparr>message_handler := Some h\<rparr>"

definition is_message_recent :: "adapter \<Rightarrow> timestamp \<Rightarrow> bool" where
  \<comment> \<open>\<open>_is_message_recent\<close>\<close>
  "is_message_recent a message_date = (message_date \<ge> bot_start_time a)"

definition extract_message_info :: "adapter \<Rightarrow> tg_update \<Rightarrow> message_info" where
  \<comment> \<open>an attribute read on a missing chat or message raises inside the \<open>try\<close>, and the
      \<open>except\<close> clause returns the three-key dictionary\<close>
  "extract_message_info a u =
     (case (effective_chat u, upd_message u) of
        (Some chat, Some m) \<Rightarrow>
          \<lparr>mi_chat_id = Some (PStr (str_int chat)),
           mi_user_id =
             Some (case effective_user u of None \<Rightarrow> PNone | Some usr \<Rightarrow> PStr (str_int (u_id usr))),
           mi_username =
             Some (case effective_user u of
                     None \<Rightarrow> PNone
                   | Some usr \<Rightarrow> (case u_username usr of None \<Rightarrow> PNone | Some n \<Rightarrow> PStr n)),
           mi_text = Some (case m_text m of None \<Rightarrow> '''' | Some t \<Rightarrow> t),
           mi_message_id = Some (m_message_id m),
           mi_date = Some (m_date m),
           mi_is_recent = Some (is_message_recent a (m_date m))\<rparr>
      | _ \<Rightarrow>
          \<lparr>mi_chat_id = Some (PStr ''unknown''), mi_user_id = None, mi_username = None,
           mi_text = Some '''', mi_message_id = None, mi_date = None,
           mi_is_recent = Some False\<rparr>)"

definition is_authorized :: "adapter \<Rightarrow> message_info \<Rightarrow> bool" where
  \<comment> \<open>\<open>str(context.get('chat_id', '')) == self.authorized_chat_id\<close>\<close>
  "is_authorized a context =
     (py_str (case mi_chat_id context of None \<Rightarrow> PStr '''' | Some v \<Rightarrow> v) = authorized_chat_id a)"

text \<open>
  What an adapter does is recorded as a list of events, in order: the send primitives called
  (they report failure by their result, which the callers drop), \<open>update.message.reply_text\<close>,
  the call of the message handler, and \<open>os.remove\<close> with the error it raised, if any. Log
  records are not modelled. The caption of an image is a glyph, a space and the message; the
  two glyph literals have code points above U+00FF and stay symbolic.
\<close>

datatype glyph = SuccessGlyph | FailureGlyph

datatype event =
    SendText string message_info
  | SendImage string "glyph \<times> string" message_info
  | ReplyText string
  | CallHandler string message_info
  | Remove string "string option"

record env =
  path_exists :: "string \<Rightarrow> bool"
  remove_error :: "string \<Rightarrow> string option"

fun contains :: "string \<Rightarrow> string \<Rightarrow> bool" where
  \<comment> \<open>\<open>sub in s\<close>\<close>
  "contains sub [] = (sub = [])"
| "contains sub (c # cs) = (take (length sub) (c # cs) = sub \<or> contains sub cs)"

definition handle_response :: "env \<Rightarrow> response \<Rightarrow> message_info \<Rightarrow> event list" where
  "handle_response e resp context =
     (let msg = (case message resp of None \<Rightarrow> ''No message'' | Some m \<Rightarrow> m);
          succ = (case success resp of None \<Rightarrow> False | Some b \<Rightarrow> b);
          d = (case data resp of None \<Rightarrow> [] | Some d \<Rightarrow> d)
      in SendText msg context #
         (case map_of d ''image_path'' of
            None \<Rightarrow> []
          | Some image_path \<Rightarrow>
              SendImage image_path (if succ then SuccessGlyph else FailureGlyph, msg) context #
              (if path_exists e image_path \<and> contains ''/tmp/'' image_path
               then [Remove image_path (remove_error e image_path)]
               else [])))"

definition handle_platform_message ::
  "adapter \<Rightarrow> env \<Rightarrow> tg_update \<Rightarrow> (py_exc + unit) \<times> event list" where
  "handle_platform_message a e u =
     (let message_info = extract_message_info a u
      in if \<not> is_authorized a message_info
         then (Inr (), [SendText ''Unauthorized access.'' message_info])
         else
           (let text1 = strip (case mi_text message_info of None \<Rightarrow> '''' | Some t \<Rightarrow> t)
            in if text1 = [] then (Inr (), [])
               else
                 (case message_handler a of
                    None \<Rightarrow> (Inr (), [])
                  | Some h \<Rightarrow>
                      (case h text1 message_info of
                         Inr resp \<Rightarrow>
                           (Inr (),
                            CallHandler text1 message_info # handle_response e resp message_info)
                       | Inl x \<Rightarrow>
                           if is_Exception x
                           then (Inr (),
                                 [CallHandler text1 message_info,
                                  SendText (''Error processing message: '' @ exc_str x)
                                    (extract_message_info a u)])
                           else (Inl x, [CallHandler text1 message_info])))))"

definition reply_text :: "tg_update \<Rightarrow> string \<Rightarrow> (py_exc + unit) \<times> event list" where
  \<comment> \<open>\<open>await update.message.reply_text(s)\<close>\<close>
  "reply_text u s =
     (case upd_message u of
        None \<Rightarrow>
          (Inl (Exc AttributeError
                  (CHR 0x27 # ''NoneType'' @ CHR 0x27 # '' object has no attribute '' @
                   CHR 0x27 # ''reply_text'' @ [CHR 0x27])), [])
      | Some _ \<Rightarrow> (Inr (), [ReplyText s]))"

definition handle_text_message ::
  "adapter \<Rightarrow> env \<Rightarrow> tg_update \<Rightarrow> (py_exc + unit) \<times> event list" where
  \<comment> \<open>\<open>_handle_text_message\<close>\<close>
  "handle_text_message a e u = handle_platform_message a e u"

definition handle_command_message ::
  "adapter \<Rightarrow> env \<Rightarrow> tg_update \<Rightarrow> (py_exc + unit) \<times> event list" where
  \<comment> \<open>\<open>_handle_command_message\<close>\<close>
  "handle_command_message a e u =
     (let message_info = extract_message_info a u
      in if \<not> is_authorized a message_info then reply_text u ''Unauthorized.''
         else if \<not> (case mi_is_recent message_info of None \<Rightarrow> False | Some b \<Rightarrow> b)
         then reply_text u ''Ignoring old message (sent before bot started).''
         else handle_platform_message a e u)"

fun is_call :: "event \<Rightarrow> bool" where
  "is_call (CallHandler _ _) = True"
| "is_call _ = False"


section \<open>Example inputs\<close>

definition demo_handler :: "string \<Rightarrow> string list \<Rightarrow> command_handler" where
  \<comment> \<open>a handler that answers with its own name and the command\<close>
  "demo_handler n cs =
     \<lparr>name = n, get_supported_commands = cs,
      handle = (\<lambda>c a. Inr \<lparr>success = Some True, message = Some (n @ '' ran '' @ c),
                              data = None, handler = Some n\<rparr>)\<rparr>"

definition exit_handler :: command_handler where
  \<comment> \<open>a handler whose \<open>handle\<close> ends in \<open>sys.exit(0)\<close>\<close>
  "exit_handler =
     \<lparr>name = ''system'', get_supported_commands = [''kill''],
      handle = (\<lambda>c a. Inl (Exc SystemExit ''0''))\<rparr>"

definition failing_handler :: command_handler where
  \<comment> \<open>a handler whose \<open>handle\<close> raises an exception derived from \<open>Exception\<close>\<close>
  "failing_handler =
     \<lparr>name = ''capture'', get_supported_commands = [''pic''],
      handle = (\<lambda>c a. Inl (Exc (UserException ''RuntimeError'') ''camera busy''))\<rparr>"

definition ok_response :: response where
  "ok_response = \<lparr>success = Some True, message = Some ''ok'', data = None, handler = None\<rparr>"

definition image_response :: "string \<Rightarrow> response" where
  "image_response p =
     \<lparr>success = Some True, message = Some ''Screenshot taken'',
      data = Some [(''image_path'', p)], handler = Some ''capture''\<rparr>"

definition demo_adapter :: adapter where
  \<comment> \<open>principal 42, started at time 100, every message answered with \<open>ok_response\<close>\<close>
  "demo_adapter =
     set_message_handler (TelegramAdapter_init ''token'' (PInt 42) 100) (\<lambda>t c. Inr ok_response)"

definition demo_update :: "int \<Rightarrow> string \<Rightarrow> timestamp \<Rightarrow> tg_update" where
  "demo_update chat t d =
     \<lparr>effective_chat = Some chat, effective_user = None,
      upd_message = Some \<lparr>m_text = Some t, m_message_id = 1, m_date = d\<rparr>\<rparr>"

definition demo_context :: message_info where
  "demo_context = extract_message_info demo_adapter (demo_update 42 ''/pic'' 150)"

definition files_present :: env where
  \<comment> \<open>every path exists and \<open>os.remove\<close> fails\<close>
  "files_present = \<lparr>path_exists = (\<lambda>p. True), remove_error = (\<lambda>p. Some ''Permission denied'')\<rparr>"

definition files_absent :: env where
  \<comment> \<open>no path exists\<close>
  "files_absent = \<lparr>path_exists = (\<lambda>p. False), remove_error = (\<lambda>p. None)\<rparr>"

definition demo_router :: router where
  \<comment> \<open>two handlers registered on the empty registry\<close>
  "demo_router =
     register_handler
       (register_handler CommandRouter_init (demo_handler ''shell'' [''run'', ''exec'']))
       (demo_handler ''maint'' [''cleanup'', ''set_password''])"

definition demo_ops :: "registry_op list" where
  \<comment> \<open>\<open>screen\<close> takes \<open>run\<close> over from \<open>shell\<close>, then \<open>shell\<close> is unregistered\<close>
  "demo_ops =
     [Register (demo_handler ''shell'' [''run'', ''exec'']),
      Register (demo_handler ''screen'' [''run'', ''run_screen'']),
      Unregister ''shell'']"

section \<open>Notions used in the statements\<close>

definition registry_ok :: "router \<Rightarrow> bool" where
  \<comment> \<open>both dictionaries have each key once, and every handler name in \<open>command_map\<close> is a
      key of \<open>handlers\<close>\<close>
  "registry_ok r =
     (distinct (map fst (handlers r)) \<and> distinct (map fst (command_map r)) \<and>
      (\<forall>c n. map_of (command_map r) c = Some n \<longrightarrow> n \<in> fst ` set (handlers r)))"

definition command_text :: "string \<Rightarrow> string" where
  \<comment> \<open>the text \<open>parse_command\<close> splits: stripped, without one leading slash\<close>
  "command_text text0 =
     (if startswith_slash (strip text0) then drop 1 (strip text0) else strip text0)"

definition with_context :: "message_info option \<Rightarrow> args \<Rightarrow> args" where
  \<comment> \<open>\<open>if context: args['_context'] = context\<close>\<close>
  "with_context context a =
     (case context of
        None \<Rightarrow> a
      | Some c \<Rightarrow> if dict_truthy c then AList.update ''_context'' (ACtx c) a else a)"

section \<open>Facts about the string functions\<close>

lemmas demo_defs = demo_adapter_def demo_update_def demo_context_def files_present_def
  files_absent_def ok_response_def image_response_def set_message_handler_def
  TelegramAdapter_init_def extract_message_info_def is_authorized_def is_message_recent_def







lemma str_int_42: "str_int 42 = ''42''"
  by code_simp

section \<open>The adapter\<close>



text \<open>
  C8. When the extracted message passes authorization and its text is empty after
  \<open>strip()\<close>, \<open>handle_platform_message\<close> returns without any event: no send primitive is
  called and the message handler (the router) is not called.
\<close>

theorem empty_text_no_send:
  assumes "is_authorized a (extract_message_info a u)"
    and "strip (case mi_text (extract_message_info a u) of None \<Rightarrow> '''' | Some t \<Rightarrow> t) = []"
  shows "handle_platform_message a e u = (Inr (), [])"
  using assms by (simp add: handle_platform_message_def Let_def)

theorem empty_text_no_send_witness:
  "is_authorized demo_adapter (extract_message_info demo_adapter (demo_update 42 ''   '' 150)) \<and>
   handle_platform_message demo_adapter files_present (demo_update 42 ''   '' 150) = (Inr (), [])"
proof -
  have a: "is_authorized demo_adapter
             (extract_message_info demo_adapter (demo_update 42 ''   '' 150))"
    by (simp add: demo_defs str_int_42)
  have b: "strip (case mi_text (extract_message_info demo_adapter (demo_update 42 ''   '' 150)) of
             None \<Rightarrow> '''' | Some t \<Rightarrow> t) = []"
    by (simp add: demo_defs strip_def isspace_def)
  show ?thesis using a empty_text_no_send [OF a b] by simp
qed




text \<open>
  C2, as the code has it. On the command path (\<open>_handle_command_message\<close>) a message sent
  before the adapter started is never passed on: the only effect is one reply, the
  stale-message notice when the sender is authorized and the refusal otherwise.
\<close>

theorem stale_command_rejected:
  assumes "upd_message u = Some m" and "m_date m < bot_start_time a"
  shows "handle_command_message a e u =
     (Inr (),
      [ReplyText (if is_authorized a (extract_message_info a u)
                  then ''Ignoring old message (sent before bot started).''
                  else ''Unauthorized.'')])"
  using assms
  by (auto simp add: handle_command_message_def reply_text_def extract_message_info_def
      is_message_recent_def Let_def split: option.splits)

theorem stale_command_rejected_witness:
  "handle_command_message demo_adapter files_absent (demo_update 42 ''/run ls'' 50) =
     (Inr (), [ReplyText ''Ignoring old message (sent before bot started).''])"
proof -
  have a: "is_authorized demo_adapter
             (extract_message_info demo_adapter (demo_update 42 ''/run ls'' 50))"
    by (simp add: demo_defs str_int_42)
  have m: "upd_message (demo_update 42 ''/run ls'' 50) =
             Some \<lparr>m_text = Some ''/run ls'', m_message_id = 1, m_date = 50\<rparr>"
    by (simp add: demo_update_def)
  have d: "m_date \<lparr>m_text = Some ''/run ls'', m_message_id = 1, m_date = 50\<rparr>
             < bot_start_time demo_adapter"
    by (simp add: demo_defs)
  from stale_command_rejected [OF m d, of files_absent] a show ?thesis by simp
qed

text \<open>
  C2 as stated fails on the plain-text path: \<open>_handle_text_message\<close> has no freshness check,
  so an authorized message sent at time 50 to an adapter started at time 100 reaches the
  message handler and is answered.
\<close>

theorem stale_text_message_counterexample:
  "m_date \<lparr>m_text = Some ''run ls'', m_message_id = 1, m_date = 50\<rparr>
     < bot_start_time demo_adapter \<and>
   is_authorized demo_adapter (extract_message_info demo_adapter (demo_update 42 ''run ls'' 50)) \<and>
   handle_text_message demo_adapter files_absent (demo_update 42 ''run ls'' 50) =
     (Inr (),
      [CallHandler ''run ls'' (extract_message_info demo_adapter (demo_update 42 ''run ls'' 50)),
       SendText ''ok'' (extract_message_info demo_adapter (demo_update 42 ''run ls'' 50))])"
  by (simp add: handle_text_message_def handle_platform_message_def handle_response_def
      demo_adapter_def demo_update_def ok_response_def set_message_handler_def
      TelegramAdapter_init_def extract_message_info_def is_authorized_def is_message_recent_def
      str_int_42 strip_def isspace_def Let_def)

section \<open>Facts about \<open>parse_command\<close>\<close>

lemma split_from_cur:
  "cur \<noteq> [] \<Longrightarrow> \<exists>w ws. split_from cur s = (cur @ w) # ws"
proof (induction s arbitrary: cur)
  case Nil
  then show ?case by simp
next
  case (Cons c cs)
  show ?case
  proof (cases "isspace c")
    case True
    with Cons.prems show ?thesis by simp
  next
    case False
    from Cons.IH [of "cur @ [c]"] obtain w ws
      where "split_from (cur @ [c]) cs = ((cur @ [c]) @ w) # ws" by auto
    with False have "split_from cur (c # cs) = (cur @ (c # w)) # ws" by simp
    then show ?thesis by blast
  qed
qed

lemma split_from_nonspace:
  "\<exists>c \<in> set s. \<not> isspace c \<Longrightarrow> \<exists>w ws. split_from [] s = w # ws \<and> w \<noteq> []"
proof (induction s)
  case Nil
  then show ?case by simp
next
  case (Cons c cs)
  show ?case
  proof (cases "isspace c")
    case True
    with Cons show ?thesis by simp
  next
    case False
    from split_from_cur [of "[c]" cs] obtain w ws
      where "split_from [c] cs = ([c] @ w) # ws" by auto
    with False show ?thesis by simp
  qed
qed

lemma strip_last: "strip s \<noteq> [] \<Longrightarrow> \<not> isspace (last (strip s))"
proof -
  assume ne: "strip s \<noteq> []"
  let ?d = "dropWhile isspace (rev (dropWhile isspace s))"
  from ne have "?d \<noteq> []" by (simp add: strip_def)
  then have "\<not> isspace (hd ?d)" by (rule hd_dropWhile)
  moreover from \<open>?d \<noteq> []\<close> have "last (strip s) = hd ?d"
    by (simp add: strip_def last_rev)
  ultimately show ?thesis by simp
qed

lemma command_text_nonspace:
  assumes "command_text t \<noteq> []"
  shows "\<exists>c \<in> set (command_text t). \<not> isspace c"
proof -
  from assms have ne: "strip t \<noteq> []" by (auto simp add: command_text_def split: if_splits)
  have "last (command_text t) = last (strip t)"
    using assms by (auto simp add: command_text_def last_drop split: if_splits)
  with strip_last [OF ne] have "\<not> isspace (last (command_text t))" by simp
  moreover from assms have "last (command_text t) \<in> set (command_text t)" by simp
  ultimately show ?thesis by blast
qed

lemma split_command_text:
  "command_text t \<noteq> [] \<Longrightarrow> \<exists>p ps. split (command_text t) = p # ps \<and> p \<noteq> []"
  unfolding split_def by (rule split_from_nonspace [OF command_text_nonspace])

lemma command_text_empty:
  "command_text t = [] \<longleftrightarrow> strip t = [] \<or> strip t = ''/''"
  by (cases "strip t") (auto simp add: command_text_def startswith_slash_def)

lemma split_Nil: "split [] = []"
  by (simp add: split_def)

lemma parse_command_empty: "command_text t = [] \<Longrightarrow> parse_command t = Inr ('''', None)"
  by (simp add: parse_command_def command_text_def Let_def)

lemma parse_command_single:
  "split (command_text t) = [p] \<Longrightarrow> parse_command t = Inr (lower p, None)"
  by (cases "command_text t = []") (auto simp add: parse_command_def command_text_def Let_def split_Nil)

lemma parse_command_args:
  "split (command_text t) = p # q # qs \<Longrightarrow>
   parse_command t =
     (case shape_args (lower p) (p # q # qs) of Inl e \<Rightarrow> Inl e | Inr a \<Rightarrow> Inr (lower p, a))"
  by (cases "command_text t = []") (auto simp add: parse_command_def command_text_def Let_def split_Nil)

lemma py_int_raises: "py_int s = Inl e \<Longrightarrow> \<exists>m. e = Exc ValueError m"
  by (auto simp add: py_int_def split: option.splits)

lemma shape_args_raises:
  "shape_args c parts = Inl e \<Longrightarrow>
     c = ''set_password'' \<and> length parts > 2 \<and> py_int (parts ! 2) = Inl e"
  by (auto simp add: shape_args_def Let_def split: if_splits sum.splits py_exc.splits exc_class.splits dest: py_int_raises)

lemma parse_command_cases:
  "(command_text t = [] \<and> parse_command t = Inr ('''', None)) \<or>
   (\<exists>p. p \<noteq> [] \<and> split (command_text t) = [p] \<and> parse_command t = Inr (lower p, None)) \<or>
   (\<exists>p q qs. p \<noteq> [] \<and> split (command_text t) = p # q # qs \<and>
      parse_command t = (case shape_args (lower p) (p # q # qs) of Inl e \<Rightarrow> Inl e | Inr a \<Rightarrow> Inr (lower p, a)))"
proof (cases "command_text t = []")
  case True
  then show ?thesis by (simp add: parse_command_empty)
next
  case False
  from split_command_text [OF False] obtain p ps
    where s: "split (command_text t) = p # ps" and p: "p \<noteq> []" by blast
  show ?thesis
  proof (cases ps)
    case Nil
    with s p parse_command_single [of t p] show ?thesis by simp
  next
    case (Cons q qs)
    with s p parse_command_args [of t p q qs] show ?thesis by simp
  qed
qed

lemma parse_command_raises:
  assumes "parse_command t = Inl e"
  shows "\<exists>p q k ks. split (command_text t) = p # q # k # ks \<and> lower p = ''set_password'' \<and>
           py_int k = Inl e \<and> is_Exception e"
proof -
  from parse_command_cases [of t] assms obtain p q qs
    where s: "split (command_text t) = p # q # qs"
      and pc: "(case shape_args (lower p) (p # q # qs) of Inl e \<Rightarrow> Inl e | Inr a \<Rightarrow> Inr (lower p, a)) = Inl e"
    by auto
  from pc have sh: "shape_args (lower p) (p # q # qs) = Inl e"
    by (simp split: sum.splits)
  from shape_args_raises [OF sh] obtain k ks where "qs = k # ks" "lower p = ''set_password''" "py_int k = Inl e"
    by (cases qs) auto
  moreover from \<open>py_int k = Inl e\<close> have "is_Exception e" by (auto dest: py_int_raises)
  ultimately show ?thesis using s by blast
qed

lemma lower_nonempty: "p \<noteq> [] \<Longrightarrow> lower p \<noteq> []"
  by (simp add: lower_def)

lemma parse_command_name_empty:
  "parse_command t = Inr ('''', a) \<longleftrightarrow> a = None \<and> command_text t = []"
proof
  assume h: "parse_command t = Inr ('''', a)"
  show "a = None \<and> command_text t = []"
  proof (cases "command_text t = []")
    case True
    with h parse_command_empty [OF True] show ?thesis by simp
  next
    case False
    from split_command_text [OF False] obtain p ps
      where s: "split (command_text t) = p # ps" and p: "p \<noteq> []" by blast
    show ?thesis
    proof (cases ps)
      case Nil
      with s h parse_command_single [of t p] lower_nonempty [OF p] show ?thesis by simp
    next
      case (Cons q qs)
      with s h parse_command_args [of t p q qs] lower_nonempty [OF p] show ?thesis
        by (simp split: sum.splits)
    qed
  qed
next
  assume "a = None \<and> command_text t = []"
  then show "parse_command t = Inr ('''', a)" by (simp add: parse_command_empty)
qed

section \<open>Facts about the registry\<close>

lemma map_of_fold_update:
  "map_of (fold (\<lambda>c m. AList.update c n m) cs m0) c = (if c \<in> set cs then Some n else map_of m0 c)"
  by (induction cs arbitrary: m0) (auto simp add: update_conv')

lemma distinct_fold_update:
  "distinct (map fst m0) \<Longrightarrow> distinct (map fst (fold (\<lambda>c m. AList.update c n m) cs m0))"
  by (induction cs arbitrary: m0) (auto simp add: distinct_update)

lemma map_of_in_keys: "map_of al k = Some v \<Longrightarrow> k \<in> fst ` set al"
  by (metis map_of_eq_None_iff option.distinct(1))

lemma keys_delete: "fst ` set (AList.delete k d) = fst ` set d - {k}"
  using delete_keys [of k d] by (metis set_map set_removeAll)

lemma del_all_filter:
  "distinct ks \<Longrightarrow> set ks \<subseteq> fst ` set d \<Longrightarrow>
   del_all ks d = Inr (filter (\<lambda>(k, v). k \<notin> set ks) d)"
proof (induction ks arbitrary: d)
  case Nil
  then show ?case by simp
next
  case (Cons k ks)
  have sub: "set ks \<subseteq> fst ` set (AList.delete k d)"
    using Cons.prems by (auto simp add: keys_delete)
  have "del_all (k # ks) d = del_all ks (AList.delete k d)"
    using Cons.prems by (simp add: dict_del_def)
  also have "\<dots> = Inr (filter (\<lambda>(k', v). k' \<notin> set ks) (AList.delete k d))"
    using Cons.IH [OF _ sub] Cons.prems by simp
  also have "filter (\<lambda>(k', v). k' \<notin> set ks) (AList.delete k d) =
             filter (\<lambda>(k', v). k' \<notin> set (k # ks)) d"
    by (induction d) (auto simp add: AList.delete_eq)
  finally show ?case .
qed

lemma filter_owned:
  assumes "distinct (map fst d)"
  shows "filter (\<lambda>(k, v). k \<notin> set (map fst (filter (\<lambda>(c, h). h = n) d))) d =
         filter (\<lambda>(c, h). h \<noteq> n) d"
proof (rule filter_cong [OF refl])
  fix x assume x: "x \<in> set d"
  obtain c h where [simp]: "x = (c, h)" by (cases x)
  have "c \<in> fst ` {p \<in> set d. snd p = n} \<longleftrightarrow> h = n"
  proof
    assume "c \<in> fst ` {p \<in> set d. snd p = n}"
    then obtain h' where "(c, h') \<in> set d" "h' = n" by auto
    with assms x show "h = n" by (auto dest: eq_key_imp_eq_value)
  next
    assume "h = n" with x show "c \<in> fst ` {p \<in> set d. snd p = n}" by force
  qed
  then show "(case x of (k, v) \<Rightarrow> k \<notin> set (map fst (filter (\<lambda>(c, h). h = n) d))) =
        (case x of (c, h) \<Rightarrow> h \<noteq> n)"
    by (auto simp add: case_prod_unfold)
qed

lemma unregister_known:
  assumes "distinct (map fst (command_map r))" and "n \<in> fst ` set (handlers r)"
  shows "unregister_handler r n =
           Inr (True, r\<lparr>handlers := AList.delete n (handlers r),
                        command_map := filter (\<lambda>(c, h). h \<noteq> n) (command_map r)\<rparr>)"
proof -
  let ?ks = "map fst (filter (\<lambda>(c, h). h = n) (command_map r))"
  have d: "distinct ?ks" using assms(1) by (simp add: distinct_map_filter)
  have s: "set ?ks \<subseteq> fst ` set (command_map r)" by auto
  have "del_all ?ks (command_map r) = Inr (filter (\<lambda>(c, h). h \<noteq> n) (command_map r))"
    using del_all_filter [OF d s] filter_owned [OF assms(1), of n] by simp
  with assms(2) show ?thesis
    by (simp add: unregister_handler_def dict_del_def)
qed

lemma unregister_unknown:
  "n \<notin> fst ` set (handlers r) \<Longrightarrow> unregister_handler r n = Inr (False, r)"
  by (simp add: unregister_handler_def)

lemma map_of_filter_owner:
  assumes "distinct (map fst d)"
  shows "map_of (filter (\<lambda>(c, h). h \<noteq> n) d) c = (if map_of d c = Some n then None else map_of d c)"
  using assms
proof (induction d)
  case Nil
  then show ?case by simp
next
  case (Cons p d)
  obtain c' h' where p: "p = (c', h')" by (cases p)
  from Cons.prems p have dd: "distinct (map fst d)" and "c' \<notin> fst ` set d"
    by simp_all
  then have nk: "map_of d c' = None"
    by (simp add: map_of_eq_None_iff)
  note IH = Cons.IH [OF dd]
  show ?case
  proof (cases "h' = n")
    case True
    show ?thesis
    proof (cases "c = c'")
      case True
      with \<open>h' = n\<close> p IH nk show ?thesis by simp
    next
      case False
      with \<open>h' = n\<close> p IH show ?thesis by simp
    qed
  next
    case False
    with p IH show ?thesis by simp
  qed
qed

lemma registry_ok_init: "registry_ok CommandRouter_init"
  by (simp add: registry_ok_def CommandRouter_init_def)

lemma registry_ok_register: "registry_ok r \<Longrightarrow> registry_ok (register_handler r h)"
  by (auto simp add: registry_ok_def register_handler_def distinct_update distinct_fold_update
      map_of_fold_update dom_update split: if_splits)

lemma registry_ok_unregister:
  assumes "registry_ok r"
  shows "\<exists>b r'. unregister_handler r n = Inr (b, r') \<and> registry_ok r'"
proof (cases "n \<in> fst ` set (handlers r)")
  case False
  show ?thesis
  proof (intro exI conjI)
    show "unregister_handler r n = Inr (False, r)"
      by (rule unregister_unknown [OF False])
    show "registry_ok r" by (rule assms)
  qed
next
  case True
  from assms have d: "distinct (map fst (command_map r))" by (simp add: registry_ok_def)
  let ?r = "r\<lparr>handlers := AList.delete n (handlers r),
              command_map := filter (\<lambda>(c, h). h \<noteq> n) (command_map r)\<rparr>"
  have ok: "registry_ok ?r"
    unfolding registry_ok_def
  proof (intro conjI allI impI)
    show "distinct (map fst (handlers ?r))"
      using assms by (simp add: registry_ok_def distinct_delete)
    show "distinct (map fst (command_map ?r))"
      using d by (simp add: distinct_map_filter)
    fix c m assume "map_of (command_map ?r) c = Some m"
    then have "map_of (command_map r) c = Some m" and "m \<noteq> n"
      using d by (auto simp add: map_of_filter_owner split: if_splits)
    with assms have "m \<in> fst ` set (handlers r) - {n}"
      by (auto simp add: registry_ok_def)
    then show "m \<in> fst ` set (handlers ?r)"
      by (simp add: keys_delete)
  qed
  show ?thesis
  proof (intro exI conjI)
    show "unregister_handler r n = Inr (True, ?r)"
      by (rule unregister_known [OF d True])
    show "registry_ok ?r" by (rule ok)
  qed
qed

lemma apply_ops_ok:
  "registry_ok r \<Longrightarrow> \<exists>r'. apply_ops r ops = Inr r' \<and> registry_ok r'"
proof (induction ops arbitrary: r)
  case Nil
  then show ?case by simp
next
  case (Cons x ops)
  show ?case
  proof (cases x)
    case (Register h)
    with Cons.IH [OF registry_ok_register [OF Cons.prems, of h]] show ?thesis by simp
  next
    case (Unregister n)
    from registry_ok_unregister [OF Cons.prems, of n] obtain b r1
      where u: "unregister_handler r n = Inr (b, r1)" and ok: "registry_ok r1" by blast
    with Unregister Cons.IH [OF ok] show ?thesis by simp
  qed
qed

section \<open>Routing\<close>

lemma route_try_parse_error:
  "parse_command t = Inl e \<Longrightarrow> route_try r t ctx = (Inl e, [])"
  by (simp add: route_try_def)

lemma route_try_empty:
  "parse_command t = Inr ([], a) \<Longrightarrow>
   route_try r t ctx = (Inr (create_error_response ''Empty command''), [])"
  by (simp add: route_try_def)

lemma route_try_unknown:
  "parse_command t = Inr (c, a) \<Longrightarrow> c \<noteq> [] \<Longrightarrow> map_of (command_map r) c = None \<Longrightarrow>
   route_try r t ctx = (Inr (create_error_response (''Unknown command: '' @ c)), [])"
  by (simp add: route_try_def Let_def)

lemma route_try_missing:
  "parse_command t = Inr (c, a) \<Longrightarrow> c \<noteq> [] \<Longrightarrow> map_of (command_map r) c = Some n \<Longrightarrow>
   map_of (handlers r) n = None \<Longrightarrow>
   route_try r t ctx = (Inl (Exc KeyError (repr n)), [])"
  by (simp add: route_try_def Let_def)

lemma route_try_dispatch:
  "parse_command t = Inr (c, a) \<Longrightarrow> c \<noteq> [] \<Longrightarrow> map_of (command_map r) c = Some n \<Longrightarrow>
   map_of (handlers r) n = Some h \<Longrightarrow>
   route_try r t ctx =
     (handle h c (with_context ctx (case a of None \<Rightarrow> [] | Some x \<Rightarrow> x)),
      [(h, c, with_context ctx (case a of None \<Rightarrow> [] | Some x \<Rightarrow> x))])"
  by (simp add: route_try_def Let_def with_context_def)

lemma route_command_Inr:
  "route_try r t ctx = (Inr resp, calls) \<Longrightarrow> route_command r t ctx = (Inr resp, calls)"
  by (simp add: route_command_def)

lemma route_command_caught:
  "route_try r t ctx = (Inl e, calls) \<Longrightarrow> is_Exception e \<Longrightarrow>
   route_command r t ctx =
     (Inr (create_error_response (''Routing error: '' @ exc_str e)), calls)"
  by (simp add: route_command_def)

lemma route_command_escapes:
  "route_try r t ctx = (Inl e, calls) \<Longrightarrow> \<not> is_Exception e \<Longrightarrow>
   route_command r t ctx = (Inl e, calls)"
  by (simp add: route_command_def)

lemma route_try_raises:
  assumes "route_try r t ctx = (Inl e, calls)"
  shows "(is_Exception e \<and> calls = []) \<or> (\<exists>h c a. calls = [(h, c, a)] \<and> handle h c a = Inl e)"
proof (cases "parse_command t")
  case (Inl x)
  with assms route_try_parse_error [OF Inl, of r ctx] parse_command_raises [OF Inl]
  show ?thesis by auto
next
  case (Inr ca)
  obtain c a where ca: "ca = (c, a)" by (cases ca)
  show ?thesis
  proof (cases "c = []")
    case True
    with assms Inr ca route_try_empty [of t a r ctx] show ?thesis by simp
  next
    case False
    show ?thesis
    proof (cases "map_of (command_map r) c")
      case None
      with assms Inr ca False route_try_unknown [of t c a r ctx] show ?thesis by simp
    next
      case (Some n)
      show ?thesis
      proof (cases "map_of (handlers r) n")
        case None
        with assms Inr ca False Some route_try_missing [of t c a r n ctx] show ?thesis by auto
      next
        case (Some h)
        with assms Inr ca False \<open>map_of (command_map r) c = Some n\<close>
          route_try_dispatch [of t c a r n h ctx] show ?thesis by auto
      qed
    qed
  qed
qed

text \<open>
  C3, as the code has it. \<open>route_command\<close> catches with \<open>except Exception\<close>. An exception
  escapes it only when a handler raised it and it is not derived from \<open>Exception\<close>. Every
  exception raised while parsing, every failed handler lookup, and every exception derived
  from \<open>Exception\<close> that a handler raises becomes the router's error response, whose message
  is \<open>Routing error: \<close> followed by the text of the exception. An exception that a
  handler raises and that is not derived from \<open>Exception\<close> (\<open>SystemExit\<close>,
  \<open>KeyboardInterrupt\<close>, \<open>CancelledError\<close>) leaves \<open>route_command\<close> unchanged, after that
  one call.
\<close>

theorem route_command_catches_Exception:
  "(\<forall>e. fst (route_command r t ctx) = Inl e \<longrightarrow>
        \<not> is_Exception e \<and>
        (\<exists>h c a. snd (route_command r t ctx) = [(h, c, a)] \<and> handle h c a = Inl e)) \<and>
   (\<forall>e. parse_command t = Inl e \<longrightarrow>
        route_command r t ctx =
          (Inr (create_error_response (''Routing error: '' @ exc_str e)), [])) \<and>
   (\<forall>c a n. parse_command t = Inr (c, a) \<longrightarrow> c \<noteq> [] \<longrightarrow>
        map_of (command_map r) c = Some n \<longrightarrow> map_of (handlers r) n = None \<longrightarrow>
        route_command r t ctx =
          (Inr (create_error_response (''Routing error: '' @ repr n)), [])) \<and>
   (\<forall>c a n h e. parse_command t = Inr (c, a) \<longrightarrow> c \<noteq> [] \<longrightarrow>
        map_of (command_map r) c = Some n \<longrightarrow> map_of (handlers r) n = Some h \<longrightarrow>
        handle h c (with_context ctx (case a of None \<Rightarrow> [] | Some x \<Rightarrow> x)) = Inl e \<longrightarrow>
        is_Exception e \<longrightarrow>
        route_command r t ctx =
          (Inr (create_error_response (''Routing error: '' @ exc_str e)),
           [(h, c, with_context ctx (case a of None \<Rightarrow> [] | Some x \<Rightarrow> x))])) \<and>
   (\<forall>c a n h e. parse_command t = Inr (c, a) \<longrightarrow> c \<noteq> [] \<longrightarrow>
        map_of (command_map r) c = Some n \<longrightarrow> map_of (handlers r) n = Some h \<longrightarrow>
        handle h c (with_context ctx (case a of None \<Rightarrow> [] | Some x \<Rightarrow> x)) = Inl e \<longrightarrow>
        \<not> is_Exception e \<longrightarrow>
        route_command r t ctx =
          (Inl e, [(h, c, with_context ctx (case a of None \<Rightarrow> [] | Some x \<Rightarrow> x))]))"
proof -
  let ?args = "\<lambda>a. with_context ctx (case a of None \<Rightarrow> [] | Some x \<Rightarrow> x)"
  have escape: "\<forall>e. fst (route_command r t ctx) = Inl e \<longrightarrow>
        \<not> is_Exception e \<and>
        (\<exists>h c a. snd (route_command r t ctx) = [(h, c, a)] \<and> handle h c a = Inl e)"
  proof (intro allI impI)
    fix e assume esc: "fst (route_command r t ctx) = Inl e"
    obtain res calls where rt: "route_try r t ctx = (res, calls)"
      by (cases "route_try r t ctx")
    show "\<not> is_Exception e \<and>
          (\<exists>h c a. snd (route_command r t ctx) = [(h, c, a)] \<and> handle h c a = Inl e)"
    proof (cases res)
      case (Inr resp)
      with rt esc route_command_Inr [of r t ctx resp calls] show ?thesis by simp
    next
      case (Inl x)
      show ?thesis
      proof (cases "is_Exception x")
        case True
        with rt Inl esc route_command_caught [of r t ctx x calls] show ?thesis by simp
      next
        case False
        with rt Inl route_command_escapes [of r t ctx x calls]
        have rc: "route_command r t ctx = (Inl x, calls)" by simp
        with esc have "x = e" by simp
        with False rt Inl route_try_raises [of r t ctx e calls] rc show ?thesis by auto
      qed
    qed
  qed
  have parsing: "\<forall>e. parse_command t = Inl e \<longrightarrow>
        route_command r t ctx =
          (Inr (create_error_response (''Routing error: '' @ exc_str e)), [])"
  proof (intro allI impI)
    fix e assume p: "parse_command t = Inl e"
    from parse_command_raises [OF p] have "is_Exception e" by blast
    with route_try_parse_error [OF p, of r ctx]
    show "route_command r t ctx =
            (Inr (create_error_response (''Routing error: '' @ exc_str e)), [])"
      by (simp add: route_command_caught)
  qed
  have lookup: "\<forall>c a n. parse_command t = Inr (c, a) \<longrightarrow> c \<noteq> [] \<longrightarrow>
        map_of (command_map r) c = Some n \<longrightarrow> map_of (handlers r) n = None \<longrightarrow>
        route_command r t ctx =
          (Inr (create_error_response (''Routing error: '' @ repr n)), [])"
  proof (intro allI impI)
    fix c a n
    assume "parse_command t = Inr (c, a)" "c \<noteq> []" "map_of (command_map r) c = Some n"
      "map_of (handlers r) n = None"
    then have "route_try r t ctx = (Inl (Exc KeyError (repr n)), [])"
      by (rule route_try_missing)
    then show "route_command r t ctx =
            (Inr (create_error_response (''Routing error: '' @ repr n)), [])"
      by (simp add: route_command_def)
  qed
  have invocation: "\<forall>c a n h e. parse_command t = Inr (c, a) \<longrightarrow> c \<noteq> [] \<longrightarrow>
        map_of (command_map r) c = Some n \<longrightarrow> map_of (handlers r) n = Some h \<longrightarrow>
        handle h c (?args a) = Inl e \<longrightarrow> is_Exception e \<longrightarrow>
        route_command r t ctx =
          (Inr (create_error_response (''Routing error: '' @ exc_str e)), [(h, c, ?args a)])"
  proof (intro allI impI)
    fix c a n h e
    assume "parse_command t = Inr (c, a)" "c \<noteq> []" "map_of (command_map r) c = Some n"
      "map_of (handlers r) n = Some h"
      and e: "handle h c (?args a) = Inl e" "is_Exception e"
    then have "route_try r t ctx = (handle h c (?args a), [(h, c, ?args a)])"
      by (simp add: route_try_dispatch)
    with e show "route_command r t ctx =
            (Inr (create_error_response (''Routing error: '' @ exc_str e)), [(h, c, ?args a)])"
      by (simp add: route_command_caught)
  qed
  have propagation: "\<forall>c a n h e. parse_command t = Inr (c, a) \<longrightarrow> c \<noteq> [] \<longrightarrow>
        map_of (command_map r) c = Some n \<longrightarrow> map_of (handlers r) n = Some h \<longrightarrow>
        handle h c (?args a) = Inl e \<longrightarrow> \<not> is_Exception e \<longrightarrow>
        route_command r t ctx = (Inl e, [(h, c, ?args a)])"
  proof (intro allI impI)
    fix c a n h e
    assume "parse_command t = Inr (c, a)" "c \<noteq> []" "map_of (command_map r) c = Some n"
      "map_of (handlers r) n = Some h"
      and e: "handle h c (?args a) = Inl e" "\<not> is_Exception e"
    then have "route_try r t ctx = (handle h c (?args a), [(h, c, ?args a)])"
      by (simp add: route_try_dispatch)
    with e show "route_command r t ctx = (Inl e, [(h, c, ?args a)])"
      by (simp add: route_command_escapes)
  qed
  show ?thesis
    by (rule conjI [OF escape conjI [OF parsing conjI [OF lookup
          conjI [OF invocation propagation]]]])
qed

lemma parse_pic: "parse_command ''/pic'' = Inr (''pic'', None)"
  by code_simp

lemma parse_kill: "parse_command ''/kill'' = Inr (''kill'', None)"
  by code_simp

text \<open>
C3 as stated fails: a handler whose \<open>handle\<close> ends in \<open>sys.exit(0)\<close> raises \<open>SystemExit\<close>,
  which \<open>except Exception\<close> does not catch, so the exception leaves \<open>route_command\<close>.
\<close>

theorem exit_escapes_counterexample:
  "route_command (register_handler CommandRouter_init exit_handler) ''/kill'' None =
     (Inl (Exc SystemExit ''0''), [(exit_handler, ''kill'', [])])"
proof -
  have "route_try (register_handler CommandRouter_init exit_handler) ''/kill'' None =
     (handle exit_handler ''kill'' (with_context None (case None of None \<Rightarrow> [] | Some x \<Rightarrow> x)),
      [(exit_handler, ''kill'', with_context None (case None of None \<Rightarrow> [] | Some x \<Rightarrow> x))])"
    by (rule route_try_dispatch [OF parse_kill, where n = "''system''"])
      (simp_all add: register_handler_def CommandRouter_init_def exit_handler_def)
  then show ?thesis
    by (simp add: route_command_def with_context_def exit_handler_def)
qed

theorem route_command_catches_Exception_witness:
  "route_command (register_handler CommandRouter_init failing_handler) ''/pic'' None =
     (Inr \<lparr>success = Some False, message = Some ''Routing error: camera busy'', data = None,
           handler = Some ''router''\<rparr>,
      [(failing_handler, ''pic'', [])]) \<and>
   route_command (register_handler CommandRouter_init exit_handler) ''/kill''
       (Some demo_context) =
     (Inl (Exc SystemExit ''0''),
      [(exit_handler, ''kill'', with_context (Some demo_context) [])])"
proof -
  let ?q = "register_handler CommandRouter_init exit_handler"
  have qm: "map_of (command_map ?q) ''kill'' = Some ''system''"
    by (simp add: register_handler_def CommandRouter_init_def exit_handler_def)
  have qh: "map_of (handlers ?q) ''system'' = Some exit_handler"
    by (simp add: register_handler_def CommandRouter_init_def exit_handler_def)
  have qe: "handle exit_handler ''kill''
              (with_context (Some demo_context) (case None of None \<Rightarrow> [] | Some x \<Rightarrow> x)) =
            Inl (Exc SystemExit ''0'')"
    by (simp add: exit_handler_def)
  have qx: "\<not> is_Exception (Exc SystemExit ''0'')" by simp
  from route_command_catches_Exception [of ?q "''/kill''" "Some demo_context"]
    parse_kill qm qh qe qx
  have "route_command ?q ''/kill'' (Some demo_context) =
          (Inl (Exc SystemExit ''0''),
           [(exit_handler, ''kill'',
             with_context (Some demo_context) (case None of None \<Rightarrow> [] | Some x \<Rightarrow> x))])"
    by blast
  then have second: "route_command ?q ''/kill'' (Some demo_context) =
     (Inl (Exc SystemExit ''0''),
      [(exit_handler, ''kill'', with_context (Some demo_context) [])])"
    by simp
  let ?r = "register_handler CommandRouter_init failing_handler"
  have m: "map_of (command_map ?r) ''pic'' = Some ''capture''"
    by (simp add: register_handler_def CommandRouter_init_def failing_handler_def)
  have h: "map_of (handlers ?r) ''capture'' = Some failing_handler"
    by (simp add: register_handler_def CommandRouter_init_def failing_handler_def)
  have e: "handle failing_handler ''pic''
             (with_context None (case None of None \<Rightarrow> [] | Some x \<Rightarrow> x)) =
           Inl (Exc (UserException ''RuntimeError'') ''camera busy'')"
    by (simp add: failing_handler_def)
  have x: "is_Exception (Exc (UserException ''RuntimeError'') ''camera busy'')" by simp
  from route_command_catches_Exception [of ?r "''/pic''" None] parse_pic m h e x
  have "route_command ?r ''/pic'' None =
          (Inr (create_error_response
                  (''Routing error: '' @ exc_str (Exc (UserException ''RuntimeError'') ''camera busy''))),
           [(failing_handler, ''pic'', with_context None (case None of None \<Rightarrow> [] | Some x \<Rightarrow> x))])"
    by blast
  then have "route_command ?r ''/pic'' None =
     (Inr \<lparr>success = Some False, message = Some ''Routing error: camera busy'', data = None,
           handler = Some ''router''\<rparr>,
      [(failing_handler, ''pic'', [])])"
    by (simp add: create_error_response_def with_context_def)
  with second show ?thesis by (rule conjI [rotated])
qed

lemma shape_args_run:
  "c \<in> {''run'', ''exec'', ''run_screen''} \<Longrightarrow>
   shape_args c parts = Inr (Some [(''command'', AStr (join (drop 1 parts)))])"
  by (auto simp add: shape_args_def)

lemma shape_args_cleanup_bad:
  "py_int q = Inl e \<Longrightarrow> shape_args ''cleanup'' (p # q # qs) = Inr None"
  by (auto simp add: shape_args_def dest: py_int_raises)

lemma shape_args_set_password_bad:
  "py_int k = Inl e \<Longrightarrow> shape_args ''set_password'' (p # q # k # ks) = Inl e"
  by (simp add: shape_args_def)

lemma parse_run: "parse_command ''/run ls -la'' = Inr (''run'', Some [(''command'', AStr ''ls -la'')])"
  by code_simp

lemma parse_slash: "parse_command ''/'' = Inr ('''', None)"
  by code_simp

lemma parse_nothing: "parse_command '''' = Inr ('''', None)"
  by code_simp

text \<open>
C7. \<open>parse_command\<close> is a function of the text alone: it reads no router state and
  returns no new one. The empty text and the lone marker both parse to the empty name
  with no arguments; the name is empty exactly when the stripped text is empty or is the
  marker; and on an empty name \<open>route_command\<close> returns the router's \<open>Empty command\<close>
  error without looking a handler up or calling one.
\<close>

theorem empty_command_rejected:
  "parse_command '''' = Inr ('''', None) \<and> parse_command ''/'' = Inr ('''', None) \<and>
   (parse_command t = Inr ('''', a) \<longleftrightarrow> a = None \<and> (strip t = '''' \<or> strip t = ''/'')) \<and>
   (parse_command t = Inr ('''', a) \<longrightarrow>
      route_command r t ctx = (Inr (create_error_response ''Empty command''), []))"
proof -
  have iff: "parse_command t = Inr ('''', a) \<longleftrightarrow> a = None \<and> (strip t = '''' \<or> strip t = ''/'')"
    by (simp add: parse_command_name_empty command_text_empty)
  have rej: "parse_command t = Inr ('''', a) \<longrightarrow>
      route_command r t ctx = (Inr (create_error_response ''Empty command''), [])"
  proof
    assume "parse_command t = Inr ('''', a)"
    then have "route_try r t ctx = (Inr (create_error_response ''Empty command''), [])"
      by (rule route_try_empty)
    then show "route_command r t ctx = (Inr (create_error_response ''Empty command''), [])"
      by (rule route_command_Inr)
  qed
  show ?thesis
    by (rule conjI [OF parse_nothing conjI [OF parse_slash conjI [OF iff rej]]])
qed

lemma strip_blank_slash: "strip ''  /  '' = ''/''"
  by code_simp

theorem empty_command_rejected_witness:
  "parse_command ''  /  '' = Inr ('''', None) \<and>
   route_command demo_router ''  /  '' (Some demo_context) =
     (Inr \<lparr>success = Some False, message = Some ''Empty command'', data = None,
           handler = Some ''router''\<rparr>, [])"
proof -
  from empty_command_rejected [of "''  /  ''" None demo_router "Some demo_context"]
  have p: "parse_command ''  /  '' = Inr ('''', None)"
    and "parse_command ''  /  '' = Inr ('''', None) \<longrightarrow>
      route_command demo_router ''  /  '' (Some demo_context) =
        (Inr (create_error_response ''Empty command''), [])"
    by (simp_all add: strip_blank_slash)
  then show ?thesis by (simp add: create_error_response_def)
qed

text \<open>
C6. The text \<open>/run ls -la\<close> parses to the name \<open>run\<close> with the single argument
  \<open>command = ls -la\<close>; in general, after \<open>run\<close>, \<open>exec\<close> or \<open>run_screen\<close> the remaining
  tokens are joined with single spaces. \<open>route_command\<close> then makes exactly one call, to the
  handler that \<open>command_map\<close> names for \<open>run\<close>, with these arguments (and the context, when
  there is one), and returns that handler's response; with no mapping for \<open>run\<close> it returns
  the \<open>Unknown command\<close> error and calls nothing.
\<close>

theorem route_run_command:
  "parse_command ''/run ls -la'' = Inr (''run'', Some [(''command'', AStr ''ls -la'')]) \<and>
   (\<forall>p q qs. split (command_text t) = p # q # qs \<longrightarrow>
      lower p \<in> {''run'', ''exec'', ''run_screen''} \<longrightarrow>
      parse_command t = Inr (lower p, Some [(''command'', AStr (join (q # qs)))])) \<and>
   (\<forall>n h. map_of (command_map r) ''run'' = Some n \<longrightarrow> map_of (handlers r) n = Some h \<longrightarrow>
      snd (route_command r ''/run ls -la'' ctx) =
        [(h, ''run'', with_context ctx [(''command'', AStr ''ls -la'')])] \<and>
      (\<forall>resp. handle h ''run'' (with_context ctx [(''command'', AStr ''ls -la'')]) = Inr resp \<longrightarrow>
         fst (route_command r ''/run ls -la'' ctx) = Inr resp)) \<and>
   (map_of (command_map r) ''run'' = None \<longrightarrow>
      route_command r ''/run ls -la'' ctx =
        (Inr (create_error_response ''Unknown command: run''), []))"
proof -
  let ?args = "with_context ctx [(''command'', AStr ''ls -la'')]"
  have general: "\<forall>p q qs. split (command_text t) = p # q # qs \<longrightarrow>
      lower p \<in> {''run'', ''exec'', ''run_screen''} \<longrightarrow>
      parse_command t = Inr (lower p, Some [(''command'', AStr (join (q # qs)))])"
  proof (intro allI impI)
    fix p q qs
    assume s: "split (command_text t) = p # q # qs"
      and c: "lower p \<in> {''run'', ''exec'', ''run_screen''}"
    from parse_command_args [OF s] shape_args_run [OF c, of "p # q # qs"]
    show "parse_command t = Inr (lower p, Some [(''command'', AStr (join (q # qs)))])"
      by simp
  qed
  have dispatch: "\<forall>n h. map_of (command_map r) ''run'' = Some n \<longrightarrow>
      map_of (handlers r) n = Some h \<longrightarrow>
      snd (route_command r ''/run ls -la'' ctx) = [(h, ''run'', ?args)] \<and>
      (\<forall>resp. handle h ''run'' ?args = Inr resp \<longrightarrow>
         fst (route_command r ''/run ls -la'' ctx) = Inr resp)"
  proof (intro allI impI)
    fix n h
    assume m: "map_of (command_map r) ''run'' = Some n" and h: "map_of (handlers r) n = Some h"
    have rt: "route_try r ''/run ls -la'' ctx = (handle h ''run'' ?args, [(h, ''run'', ?args)])"
      using route_try_dispatch [OF parse_run _ m h, of ctx] by simp
    show "snd (route_command r ''/run ls -la'' ctx) = [(h, ''run'', ?args)] \<and>
      (\<forall>resp. handle h ''run'' ?args = Inr resp \<longrightarrow>
         fst (route_command r ''/run ls -la'' ctx) = Inr resp)"
      using rt by (cases "handle h ''run'' ?args") (simp_all add: route_command_def)
  qed
  have unknown: "map_of (command_map r) ''run'' = None \<longrightarrow>
      route_command r ''/run ls -la'' ctx =
        (Inr (create_error_response ''Unknown command: run''), [])"
  proof
    assume "map_of (command_map r) ''run'' = None"
    with route_try_unknown [OF parse_run, of r ctx]
    have "route_try r ''/run ls -la'' ctx =
            (Inr (create_error_response (''Unknown command: '' @ ''run'')), [])"
      by simp
    then show "route_command r ''/run ls -la'' ctx =
        (Inr (create_error_response ''Unknown command: run''), [])"
      by (simp add: route_command_def)
  qed
  show ?thesis
    by (rule conjI [OF parse_run conjI [OF general conjI [OF dispatch unknown]]])
qed

lemma split_RUN: "split (command_text ''  /RUN   ls    -la  '') = [''RUN'', ''ls'', ''-la'']"
  by code_simp

lemma lower_RUN: "lower ''RUN'' = ''run''"
  by code_simp

lemma demo_router_run: "map_of (command_map demo_router) ''run'' = Some ''shell''"
  by (simp add: demo_router_def register_handler_def CommandRouter_init_def demo_handler_def)

lemma demo_router_shell:
  "map_of (handlers demo_router) ''shell'' = Some (demo_handler ''shell'' [''run'', ''exec''])"
  by (simp add: demo_router_def register_handler_def CommandRouter_init_def demo_handler_def)

theorem route_run_command_witness:
  "parse_command ''  /RUN   ls    -la  '' = Inr (''run'', Some [(''command'', AStr ''ls -la'')]) \<and>
   route_command demo_router ''/run ls -la'' None =
     (Inr \<lparr>success = Some True, message = Some ''shell ran run'', data = None,
           handler = Some ''shell''\<rparr>,
      [(demo_handler ''shell'' [''run'', ''exec''], ''run'', [(''command'', AStr ''ls -la'')])])"
proof -
  note th = route_run_command [of "''  /RUN   ls    -la  ''" demo_router None]
  from th split_RUN lower_RUN
  have p: "parse_command ''  /RUN   ls    -la  '' =
             Inr (lower ''RUN'', Some [(''command'', AStr (join [''ls'', ''-la'']))])"
    by simp
  have hr: "handle (demo_handler ''shell'' [''run'', ''exec'']) ''run''
              (with_context None [(''command'', AStr ''ls -la'')]) =
            Inr \<lparr>success = Some True, message = Some ''shell ran run'', data = None,
                 handler = Some ''shell''\<rparr>"
    by (simp add: demo_handler_def)
  from th demo_router_run demo_router_shell hr
  have "snd (route_command demo_router ''/run ls -la'' None) =
          [(demo_handler ''shell'' [''run'', ''exec''], ''run'',
            with_context None [(''command'', AStr ''ls -la'')])]"
    and "fst (route_command demo_router ''/run ls -la'' None) =
          Inr \<lparr>success = Some True, message = Some ''shell ran run'', data = None,
               handler = Some ''shell''\<rparr>"
    by blast+
  then have "route_command demo_router ''/run ls -la'' None =
     (Inr \<lparr>success = Some True, message = Some ''shell ran run'', data = None,
           handler = Some ''shell''\<rparr>,
      [(demo_handler ''shell'' [''run'', ''exec''], ''run'', [(''command'', AStr ''ls -la'')])])"
    by (simp add: prod_eq_iff with_context_def)
  with p lower_RUN show ?thesis by simp
qed

text \<open>
C1, as the code has it. For \<open>set_password\<close> with a third token that \<open>int()\<close> rejects,
  \<open>route_command\<close> returns the router's error response, with \<open>success = False\<close> and a
  \<open>Routing error\<close> message that differs from the \<open>Unknown command\<close> message, and calls no
  handler. For \<open>cleanup\<close> with a second token that \<open>int()\<close> rejects, \<open>parse_command\<close>
  yields no arguments, and \<open>route_command\<close> treats that like a command without arguments:
  it answers \<open>Unknown command\<close> when \<open>cleanup\<close> is unmapped and otherwise calls the owning
  handler with the empty argument bag (plus the context).
\<close>

theorem bad_integer_argument:
  assumes "split (command_text t) = p # q # qs"
  shows "(lower p = ''set_password'' \<longrightarrow>
           (\<forall>k ks e. qs = k # ks \<longrightarrow> py_int k = Inl e \<longrightarrow>
              route_command r t ctx =
                (Inr (create_error_response (''Routing error: '' @ exc_str e)), []) \<and>
              success (create_error_response (''Routing error: '' @ exc_str e)) = Some False \<and>
              handler (create_error_response (''Routing error: '' @ exc_str e)) = Some ''router'' \<and>
              message (create_error_response (''Routing error: '' @ exc_str e)) \<noteq>
                message (create_error_response (''Unknown command: '' @ lower p)))) \<and>
         (lower p = ''cleanup'' \<longrightarrow>
           (\<forall>e. py_int q = Inl e \<longrightarrow>
              parse_command t = Inr (''cleanup'', None) \<and>
              (map_of (command_map r) ''cleanup'' = None \<longrightarrow>
                 route_command r t ctx =
                   (Inr (create_error_response ''Unknown command: cleanup''), [])) \<and>
              (\<forall>n h. map_of (command_map r) ''cleanup'' = Some n \<longrightarrow>
                 map_of (handlers r) n = Some h \<longrightarrow>
                 snd (route_command r t ctx) = [(h, ''cleanup'', with_context ctx [])])))"
proof -
  have sp: "lower p = ''set_password'' \<longrightarrow>
           (\<forall>k ks e. qs = k # ks \<longrightarrow> py_int k = Inl e \<longrightarrow>
              route_command r t ctx =
                (Inr (create_error_response (''Routing error: '' @ exc_str e)), []) \<and>
              success (create_error_response (''Routing error: '' @ exc_str e)) = Some False \<and>
              handler (create_error_response (''Routing error: '' @ exc_str e)) = Some ''router'' \<and>
              message (create_error_response (''Routing error: '' @ exc_str e)) \<noteq>
                message (create_error_response (''Unknown command: '' @ lower p)))"
  proof (intro allI impI)
    fix k ks e
    assume c: "lower p = ''set_password''" and qs: "qs = k # ks" and e: "py_int k = Inl e"
    from parse_command_args [OF assms] c qs shape_args_set_password_bad [OF e, of p q ks]
    have pe: "parse_command t = Inl e" by simp
    from parse_command_raises [OF pe] have ex: "is_Exception e" by blast
    from route_try_parse_error [OF pe, of r ctx] ex
    have "route_command r t ctx =
            (Inr (create_error_response (''Routing error: '' @ exc_str e)), [])"
      by (simp add: route_command_caught)
    then show "route_command r t ctx =
                (Inr (create_error_response (''Routing error: '' @ exc_str e)), []) \<and>
              success (create_error_response (''Routing error: '' @ exc_str e)) = Some False \<and>
              handler (create_error_response (''Routing error: '' @ exc_str e)) = Some ''router'' \<and>
              message (create_error_response (''Routing error: '' @ exc_str e)) \<noteq>
                message (create_error_response (''Unknown command: '' @ lower p))"
      by (simp add: create_error_response_def)
  qed
  have cl: "lower p = ''cleanup'' \<longrightarrow>
           (\<forall>e. py_int q = Inl e \<longrightarrow>
              parse_command t = Inr (''cleanup'', None) \<and>
              (map_of (command_map r) ''cleanup'' = None \<longrightarrow>
                 route_command r t ctx =
                   (Inr (create_error_response ''Unknown command: cleanup''), [])) \<and>
              (\<forall>n h. map_of (command_map r) ''cleanup'' = Some n \<longrightarrow>
                 map_of (handlers r) n = Some h \<longrightarrow>
                 snd (route_command r t ctx) = [(h, ''cleanup'', with_context ctx [])]))"
  proof (intro allI impI)
    fix e
    assume c: "lower p = ''cleanup''" and e: "py_int q = Inl e"
    from parse_command_args [OF assms] c shape_args_cleanup_bad [OF e, of p qs]
    have pc: "parse_command t = Inr (''cleanup'', None)" by simp
    have unk: "map_of (command_map r) ''cleanup'' = None \<longrightarrow>
                 route_command r t ctx =
                   (Inr (create_error_response ''Unknown command: cleanup''), [])"
    proof
      assume "map_of (command_map r) ''cleanup'' = None"
      with route_try_unknown [OF pc, of r ctx]
      have "route_try r t ctx =
              (Inr (create_error_response (''Unknown command: '' @ ''cleanup'')), [])"
        by simp
      then show "route_command r t ctx =
                   (Inr (create_error_response ''Unknown command: cleanup''), [])"
        by (simp add: route_command_def)
    qed
    have disp: "\<forall>n h. map_of (command_map r) ''cleanup'' = Some n \<longrightarrow>
                 map_of (handlers r) n = Some h \<longrightarrow>
                 snd (route_command r t ctx) = [(h, ''cleanup'', with_context ctx [])]"
    proof (intro allI impI)
      fix n h
      assume m: "map_of (command_map r) ''cleanup'' = Some n"
        and h: "map_of (handlers r) n = Some h"
      have rt: "route_try r t ctx =
                  (handle h ''cleanup'' (with_context ctx []), [(h, ''cleanup'', with_context ctx [])])"
        using route_try_dispatch [OF pc _ m h, of ctx] by simp
      show "snd (route_command r t ctx) = [(h, ''cleanup'', with_context ctx [])]"
        using rt
        by (cases "handle h ''cleanup'' (with_context ctx [])") (simp_all add: route_command_def)
    qed
    show "parse_command t = Inr (''cleanup'', None) \<and>
              (map_of (command_map r) ''cleanup'' = None \<longrightarrow>
                 route_command r t ctx =
                   (Inr (create_error_response ''Unknown command: cleanup''), [])) \<and>
              (\<forall>n h. map_of (command_map r) ''cleanup'' = Some n \<longrightarrow>
                 map_of (handlers r) n = Some h \<longrightarrow>
                 snd (route_command r t ctx) = [(h, ''cleanup'', with_context ctx [])])"
      by (rule conjI [OF pc conjI [OF unk disp]])
  qed
  show ?thesis by (rule conjI [OF sp cl])
qed

lemma split_set_password:
  "split (command_text ''/set_password abc99 notanumber'') = [''set_password'', ''abc99'', ''notanumber'']"
  by code_simp

lemma lower_set_password: "lower ''set_password'' = ''set_password''"
  by code_simp

lemma py_int_notanumber:
  "py_int ''notanumber'' =
     Inl (Exc ValueError (''invalid literal for int() with base 10: '' @ CHR 0x27 # ''notanumber'' @ [CHR 0x27]))"
  by code_simp

theorem bad_integer_argument_witness:
  "route_command demo_router ''/set_password abc99 notanumber'' None =
     (Inr \<lparr>success = Some False,
           message = Some (''Routing error: invalid literal for int() with base 10: '' @
                           CHR 0x27 # ''notanumber'' @ [CHR 0x27]),
           data = None, handler = Some ''router''\<rparr>, [])"
proof -
  from bad_integer_argument [OF split_set_password, of demo_router None] lower_set_password
    py_int_notanumber
  have "route_command demo_router ''/set_password abc99 notanumber'' None =
          (Inr (create_error_response
             (''Routing error: '' @ exc_str (Exc ValueError
                (''invalid literal for int() with base 10: '' @ CHR 0x27 # ''notanumber'' @ [CHR 0x27])))), [])"
    by blast
  then show ?thesis by (simp add: create_error_response_def)
qed

lemma parse_cleanup_soon: "parse_command ''/cleanup soon'' = Inr (''cleanup'', None)"
  by code_simp

lemma parse_set_password_bad:
  "parse_command ''/set_password abc99 notanumber'' =
     Inl (Exc ValueError (''invalid literal for int() with base 10: '' @ CHR 0x27 # ''notanumber'' @ [CHR 0x27]))"
  by code_simp

lemma demo_router_cleanup: "map_of (command_map demo_router) ''cleanup'' = Some ''maint''"
  by (simp add: demo_router_def register_handler_def CommandRouter_init_def demo_handler_def)

lemma demo_router_maint:
  "map_of (handlers demo_router) ''maint'' =
     Some (demo_handler ''maint'' [''cleanup'', ''set_password''])"
  by (simp add: demo_router_def register_handler_def CommandRouter_init_def demo_handler_def)

text \<open>
C1 as stated fails. For \<open>/set_password abc99 notanumber\<close> \<open>parse_command\<close> raises
  \<open>ValueError\<close> instead of yielding absent arguments, and for \<open>/cleanup soon\<close> the absent
  arguments are not reported as an error: the handler that owns \<open>cleanup\<close> is called with
  an empty argument bag and its response is returned.
\<close>

theorem cleanup_dispatched_counterexample:
  "parse_command ''/set_password abc99 notanumber'' =
     Inl (Exc ValueError (''invalid literal for int() with base 10: '' @
                          CHR 0x27 # ''notanumber'' @ [CHR 0x27])) \<and>
   parse_command ''/cleanup soon'' = Inr (''cleanup'', None) \<and>
   route_command demo_router ''/cleanup soon'' None =
     (Inr \<lparr>success = Some True, message = Some ''maint ran cleanup'', data = None,
           handler = Some ''maint''\<rparr>,
      [(demo_handler ''maint'' [''cleanup'', ''set_password''], ''cleanup'', [])])"
proof -
  have "route_try demo_router ''/cleanup soon'' None =
     (handle (demo_handler ''maint'' [''cleanup'', ''set_password'']) ''cleanup''
        (with_context None (case None of None \<Rightarrow> [] | Some x \<Rightarrow> x)),
      [(demo_handler ''maint'' [''cleanup'', ''set_password''], ''cleanup'',
        with_context None (case None of None \<Rightarrow> [] | Some x \<Rightarrow> x))])"
    by (rule route_try_dispatch [OF parse_cleanup_soon _ demo_router_cleanup demo_router_maint])
      simp
  then have "route_command demo_router ''/cleanup soon'' None =
     (Inr \<lparr>success = Some True, message = Some ''maint ran cleanup'', data = None,
           handler = Some ''maint''\<rparr>,
      [(demo_handler ''maint'' [''cleanup'', ''set_password''], ''cleanup'', [])])"
    by (simp add: route_command_def with_context_def demo_handler_def)
  with parse_set_password_bad parse_cleanup_soon show ?thesis by simp
qed

section \<open>The registry\<close>

lemma snd_route_command: "snd (route_command r t ctx) = snd (route_try r t ctx)"
proof (cases "route_try r t ctx")
  case (Pair res calls)
  then show ?thesis by (cases res) (simp_all add: route_command_def)
qed

lemma registry_ok_lookup:
  assumes "registry_ok r" and "map_of (command_map r) c = Some n"
  shows "\<exists>h. map_of (handlers r) n = Some h"
proof -
  from assms have "n \<in> fst ` set (handlers r)" by (simp add: registry_ok_def)
  then have "map_of (handlers r) n \<noteq> None" by (simp add: map_of_eq_None_iff)
  then show ?thesis by blast
qed

lemma route_calls:
  assumes "parse_command t = Inr (c, a)" "c \<noteq> []" "map_of (command_map r) c = Some n"
    "map_of (handlers r) n = Some h"
  shows "snd (route_command r t ctx) =
           [(h, c, with_context ctx (case a of None \<Rightarrow> [] | Some x \<Rightarrow> x))]"
  using route_try_dispatch [OF assms, of ctx] by (simp add: snd_route_command)

text \<open>
C10. Any sequence of \<open>register_handler\<close> and \<open>unregister_handler\<close> calls on the empty
  registry runs without raising, and in the registry it leaves every handler name that
  \<open>command_map\<close> holds is a key of \<open>handlers\<close>. So when \<open>route_command\<close> finds the command
  in \<open>command_map\<close>, the lookup \<open>self.handlers[handler_name]\<close> succeeds and that handler is
  the one called.
\<close>

theorem registry_consistency:
  "\<exists>r. apply_ops CommandRouter_init ops = Inr r \<and>
       (\<forall>c n. map_of (command_map r) c = Some n \<longrightarrow> n \<in> fst ` set (handlers r)) \<and>
       (\<forall>t ctx c a n. parse_command t = Inr (c, a) \<longrightarrow> c \<noteq> [] \<longrightarrow>
          map_of (command_map r) c = Some n \<longrightarrow>
          (\<exists>h. map_of (handlers r) n = Some h \<and>
               snd (route_command r t ctx) =
                 [(h, c, with_context ctx (case a of None \<Rightarrow> [] | Some x \<Rightarrow> x))]))"
proof -
  from apply_ops_ok [OF registry_ok_init, of ops] obtain r
    where r: "apply_ops CommandRouter_init ops = Inr r" and ok: "registry_ok r" by blast
  have keys: "\<forall>c n. map_of (command_map r) c = Some n \<longrightarrow> n \<in> fst ` set (handlers r)"
    using ok by (simp add: registry_ok_def)
  have found: "\<forall>t ctx c a n. parse_command t = Inr (c, a) \<longrightarrow> c \<noteq> [] \<longrightarrow>
          map_of (command_map r) c = Some n \<longrightarrow>
          (\<exists>h. map_of (handlers r) n = Some h \<and>
               snd (route_command r t ctx) =
                 [(h, c, with_context ctx (case a of None \<Rightarrow> [] | Some x \<Rightarrow> x))])"
  proof (intro allI impI)
    fix t ctx c a n
    assume p: "parse_command t = Inr (c, a)" and c: "c \<noteq> []"
      and m: "map_of (command_map r) c = Some n"
    from registry_ok_lookup [OF ok m] obtain h where h: "map_of (handlers r) n = Some h" ..
    from h route_calls [OF p c m h, of ctx]
    show "\<exists>h. map_of (handlers r) n = Some h \<and>
               snd (route_command r t ctx) =
                 [(h, c, with_context ctx (case a of None \<Rightarrow> [] | Some x \<Rightarrow> x))]"
      by blast
  qed
  from r keys found show ?thesis by blast
qed

lemma demo_ops_result:
  "apply_ops CommandRouter_init demo_ops =
     Inr \<lparr>handlers = [(''screen'', demo_handler ''screen'' [''run'', ''run_screen''])],
          command_map = [(''run'', ''screen''), (''run_screen'', ''screen'')]\<rparr>"
  by (simp add: demo_ops_def CommandRouter_init_def register_handler_def unregister_handler_def
      demo_handler_def dict_del_def Let_def)

theorem registry_consistency_witness:
  "apply_ops CommandRouter_init demo_ops =
     Inr \<lparr>handlers = [(''screen'', demo_handler ''screen'' [''run'', ''run_screen''])],
          command_map = [(''run'', ''screen''), (''run_screen'', ''screen'')]\<rparr> \<and>
   snd (route_command
          \<lparr>handlers = [(''screen'', demo_handler ''screen'' [''run'', ''run_screen''])],
           command_map = [(''run'', ''screen''), (''run_screen'', ''screen'')]\<rparr>
          ''/run ls -la'' None) =
     [(demo_handler ''screen'' [''run'', ''run_screen''], ''run'', [(''command'', AStr ''ls -la'')])]"
proof -
  let ?R = "\<lparr>handlers = [(''screen'', demo_handler ''screen'' [''run'', ''run_screen''])],
            command_map = [(''run'', ''screen''), (''run_screen'', ''screen'')]\<rparr>"
  from registry_consistency [of demo_ops] obtain r
    where r: "apply_ops CommandRouter_init demo_ops = Inr r"
      and f: "\<forall>t ctx c a n. parse_command t = Inr (c, a) \<longrightarrow> c \<noteq> [] \<longrightarrow>
          map_of (command_map r) c = Some n \<longrightarrow>
          (\<exists>h. map_of (handlers r) n = Some h \<and>
               snd (route_command r t ctx) =
                 [(h, c, with_context ctx (case a of None \<Rightarrow> [] | Some x \<Rightarrow> x))])"
    by blast
  from r demo_ops_result have rR: "r = ?R" by simp
  have m: "map_of (command_map ?R) ''run'' = Some ''screen''" by simp
  from f [rule_format, OF parse_run _ m [folded rR], of None] obtain h
    where h: "map_of (handlers r) ''screen'' = Some h"
      and s: "snd (route_command r ''/run ls -la'' None) =
                [(h, ''run'', with_context None
                    (case Some [(''command'', AStr ''ls -la'')] of None \<Rightarrow> [] | Some x \<Rightarrow> x))]"
    by auto
  from h rR have "h = demo_handler ''screen'' [''run'', ''run_screen'']" by simp
  with s rR demo_ops_result show ?thesis by (simp add: with_context_def)
qed

lemma register_command_map:
  "map_of (command_map (register_handler r h)) c =
     (if c \<in> set (get_supported_commands h) then Some (name h) else map_of (command_map r) c)"
  by (simp add: register_handler_def map_of_fold_update)

lemma register_handlers:
  "map_of (handlers (register_handler r h)) n =
     (if n = name h then Some h else map_of (handlers r) n)"
  by (simp add: register_handler_def update_conv')

lemma unregister_owned:
  assumes ok: "registry_ok r" and n: "n \<in> fst ` set (handlers r)"
  shows "\<exists>r'. unregister_handler r n = Inr (True, r') \<and>
           command_map r' = filter (\<lambda>(c, h). h \<noteq> n) (command_map r) \<and>
           handlers r' = AList.delete n (handlers r) \<and>
           (\<forall>c. map_of (command_map r') c =
                  (if map_of (command_map r) c = Some n then None else map_of (command_map r) c))"
proof -
  from ok have d: "distinct (map fst (command_map r))" by (simp add: registry_ok_def)
  let ?r = "r\<lparr>handlers := AList.delete n (handlers r),
              command_map := filter (\<lambda>(c, h). h \<noteq> n) (command_map r)\<rparr>"
  have u: "unregister_handler r n = Inr (True, ?r)" by (rule unregister_known [OF d n])
  have m: "\<forall>c. map_of (command_map ?r) c =
                  (if map_of (command_map r) c = Some n then None else map_of (command_map r) c)"
    using map_of_filter_owner [OF d, of n] by simp
  show ?thesis
  proof (intro exI conjI)
    show "unregister_handler r n = Inr (True, ?r)" by (rule u)
    show "command_map ?r = filter (\<lambda>(c, h). h \<noteq> n) (command_map r)" by simp
    show "handlers ?r = AList.delete n (handlers r)" by simp
    show "\<forall>c. map_of (command_map ?r) c =
                  (if map_of (command_map r) c = Some n then None else map_of (command_map r) c)"
      by (rule m)
  qed
qed

text \<open>
C5. On a registry built from the empty one, let handler \<open>A\<close> be registered for a command
  and then handler \<open>B\<close> for the same command. The command then maps to \<open>B\<close>, and routing it
  makes exactly one call, to \<open>B\<close>. Unregistering \<open>B\<close> succeeds and removes exactly the
  commands that mapped to \<open>B\<close> at that moment, whatever \<open>B\<close> declared: the command is
  left unmapped (it does not go back to \<open>A\<close>) and routing it gives \<open>Unknown command\<close>.
  In every registry built from the empty one, unregistering any registered name removes
  that handler and exactly the commands whose current owner it is: a command the handler
  declared and another handler has since taken over stays with its new owner. Unregistering
  a name that is not registered returns \<open>False\<close> and changes nothing.
\<close>

theorem reregistration_reassigns:
  assumes reach: "apply_ops CommandRouter_init ops = Inr r0"
    and cA: "c \<in> set (get_supported_commands A)"
    and cB: "c \<in> set (get_supported_commands B)"
  shows "map_of (command_map (register_handler r0 A)) c = Some (name A) \<and>
         map_of (command_map (register_handler (register_handler r0 A) B)) c = Some (name B) \<and>
         map_of (handlers (register_handler (register_handler r0 A) B)) (name B) = Some B \<and>
         (\<forall>t ctx a. parse_command t = Inr (c, a) \<longrightarrow> c \<noteq> [] \<longrightarrow>
            snd (route_command (register_handler (register_handler r0 A) B) t ctx) =
              [(B, c, with_context ctx (case a of None \<Rightarrow> [] | Some x \<Rightarrow> x))]) \<and>
         (\<exists>r3. unregister_handler (register_handler (register_handler r0 A) B) (name B) =
                 Inr (True, r3) \<and>
               map_of (command_map r3) c = None \<and>
               map_of (handlers r3) (name B) = None \<and>
               (\<forall>c'. map_of (command_map r3) c' =
                  (if map_of (command_map (register_handler (register_handler r0 A) B)) c' =
                      Some (name B)
                   then None
                   else map_of (command_map (register_handler (register_handler r0 A) B)) c')) \<and>
               (\<forall>t ctx a. parse_command t = Inr (c, a) \<longrightarrow> c \<noteq> [] \<longrightarrow>
                  route_command r3 t ctx =
                    (Inr (create_error_response (''Unknown command: '' @ c)), []))) \<and>
         (\<forall>n. n \<in> fst ` set (handlers r0) \<longrightarrow>
            (\<exists>r'. unregister_handler r0 n = Inr (True, r') \<and>
                  command_map r' = filter (\<lambda>(c', owner). owner \<noteq> n) (command_map r0) \<and>
                  handlers r' = AList.delete n (handlers r0) \<and>
                  (\<forall>c'. map_of (command_map r') c' =
                     (if map_of (command_map r0) c' = Some n then None
                      else map_of (command_map r0) c')))) \<and>
         (\<forall>n. n \<notin> fst ` set (handlers r0) \<longrightarrow> unregister_handler r0 n = Inr (False, r0))"
proof -
  let ?r2 = "register_handler (register_handler r0 A) B"
  let ?args = "\<lambda>ctx a. with_context ctx (case a of None \<Rightarrow> [] | Some x \<Rightarrow> x)"
  from apply_ops_ok [OF registry_ok_init, of ops] reach have ok0: "registry_ok r0" by simp
  then have ok2: "registry_ok ?r2" by (intro registry_ok_register)
  have ownA: "map_of (command_map (register_handler r0 A)) c = Some (name A)"
    using cA by (simp add: register_command_map)
  have ownB: "map_of (command_map ?r2) c = Some (name B)"
    using cB by (simp add: register_command_map)
  have hB: "map_of (handlers ?r2) (name B) = Some B"
    by (simp add: register_handlers)
  have route: "\<forall>t ctx a. parse_command t = Inr (c, a) \<longrightarrow> c \<noteq> [] \<longrightarrow>
            snd (route_command ?r2 t ctx) = [(B, c, ?args ctx a)]"
  proof (intro allI impI)
    fix t ctx a
    assume "parse_command t = Inr (c, a)" "c \<noteq> []"
    then show "snd (route_command ?r2 t ctx) = [(B, c, ?args ctx a)]"
      using ownB hB by (rule route_calls)
  qed
  have key: "name B \<in> fst ` set (handlers ?r2)"
    using hB by (rule map_of_in_keys)
  from unregister_owned [OF ok2 key] obtain r3
    where u: "unregister_handler ?r2 (name B) = Inr (True, r3)"
      and hs: "handlers r3 = AList.delete (name B) (handlers ?r2)"
      and m: "\<forall>c'. map_of (command_map r3) c' =
                  (if map_of (command_map ?r2) c' = Some (name B) then None
                   else map_of (command_map ?r2) c')"
    by blast
  from m ownB have gone: "map_of (command_map r3) c = None" by simp
  from hs have hgone: "map_of (handlers r3) (name B) = None"
    by (simp add: delete_conv')
  have unknown: "\<forall>t ctx a. parse_command t = Inr (c, a) \<longrightarrow> c \<noteq> [] \<longrightarrow>
                  route_command r3 t ctx =
                    (Inr (create_error_response (''Unknown command: '' @ c)), [])"
  proof (intro allI impI)
    fix t ctx a
    assume "parse_command t = Inr (c, a)" "c \<noteq> []"
    then have "route_try r3 t ctx =
                 (Inr (create_error_response (''Unknown command: '' @ c)), [])"
      using gone by (rule route_try_unknown)
    then show "route_command r3 t ctx =
                 (Inr (create_error_response (''Unknown command: '' @ c)), [])"
      by (rule route_command_Inr)
  qed
  have after: "\<exists>r3. unregister_handler ?r2 (name B) = Inr (True, r3) \<and>
               map_of (command_map r3) c = None \<and>
               map_of (handlers r3) (name B) = None \<and>
               (\<forall>c'. map_of (command_map r3) c' =
                  (if map_of (command_map ?r2) c' = Some (name B) then None
                   else map_of (command_map ?r2) c')) \<and>
               (\<forall>t ctx a. parse_command t = Inr (c, a) \<longrightarrow> c \<noteq> [] \<longrightarrow>
                  route_command r3 t ctx =
                    (Inr (create_error_response (''Unknown command: '' @ c)), []))"
    by (rule exI [of _ r3]) (rule conjI [OF u conjI [OF gone conjI [OF hgone conjI [OF m unknown]]]])
  have owned: "\<forall>n. n \<in> fst ` set (handlers r0) \<longrightarrow>
            (\<exists>r'. unregister_handler r0 n = Inr (True, r') \<and>
                  command_map r' = filter (\<lambda>(c', owner). owner \<noteq> n) (command_map r0) \<and>
                  handlers r' = AList.delete n (handlers r0) \<and>
                  (\<forall>c'. map_of (command_map r') c' =
                     (if map_of (command_map r0) c' = Some n then None
                      else map_of (command_map r0) c')))"
  proof (intro allI impI)
    fix n assume "n \<in> fst ` set (handlers r0)"
    with ok0 show "\<exists>r'. unregister_handler r0 n = Inr (True, r') \<and>
                  command_map r' = filter (\<lambda>(c', owner). owner \<noteq> n) (command_map r0) \<and>
                  handlers r' = AList.delete n (handlers r0) \<and>
                  (\<forall>c'. map_of (command_map r') c' =
                     (if map_of (command_map r0) c' = Some n then None
                      else map_of (command_map r0) c'))"
      by (rule unregister_owned)
  qed
  have absent: "\<forall>n. n \<notin> fst ` set (handlers r0) \<longrightarrow>
                  unregister_handler r0 n = Inr (False, r0)"
  proof (intro allI impI)
    fix n assume "n \<notin> fst ` set (handlers r0)"
    then show "unregister_handler r0 n = Inr (False, r0)" by (rule unregister_unknown)
  qed
  show ?thesis
    by (rule conjI [OF ownA conjI [OF ownB conjI [OF hB conjI [OF route
          conjI [OF after conjI [OF owned absent]]]]]])
qed

lemma apply_ops_Nil: "apply_ops CommandRouter_init [] = Inr CommandRouter_init"
  by simp

lemma run_in_shell: "''run'' \<in> set (get_supported_commands (demo_handler ''shell'' [''run'', ''exec'']))"
  by (simp add: demo_handler_def)

lemma run_in_screen:
  "''run'' \<in> set (get_supported_commands (demo_handler ''screen'' [''run'', ''run_screen'']))"
  by (simp add: demo_handler_def)

lemma demo_unregister:
  "unregister_handler
     (register_handler
        (register_handler CommandRouter_init (demo_handler ''shell'' [''run'', ''exec'']))
        (demo_handler ''screen'' [''run'', ''run_screen'']))
     ''screen'' =
   Inr (True, \<lparr>handlers = [(''shell'', demo_handler ''shell'' [''run'', ''exec''])],
               command_map = [(''exec'', ''shell'')]\<rparr>)"
  by (simp add: CommandRouter_init_def register_handler_def unregister_handler_def
      demo_handler_def dict_del_def Let_def)

lemma apply_ops_two:
  "apply_ops CommandRouter_init [Register A, Register B] =
     Inr (register_handler (register_handler CommandRouter_init A) B)"
  by simp

lemma demo_unregister_shell:
  "unregister_handler
     (register_handler
        (register_handler CommandRouter_init (demo_handler ''shell'' [''run'', ''exec'']))
        (demo_handler ''screen'' [''run'', ''run_screen'']))
     ''shell'' =
   Inr (True, \<lparr>handlers = [(''screen'', demo_handler ''screen'' [''run'', ''run_screen''])],
               command_map = [(''run'', ''screen''), (''run_screen'', ''screen'')]\<rparr>)"
  by (simp add: CommandRouter_init_def register_handler_def unregister_handler_def
      demo_handler_def dict_del_def Let_def)

theorem reregistration_reassigns_witness:
  "map_of (command_map (register_handler CommandRouter_init
      (demo_handler ''shell'' [''run'', ''exec'']))) ''run'' = Some ''shell'' \<and>
   snd (route_command
          (register_handler
             (register_handler CommandRouter_init (demo_handler ''shell'' [''run'', ''exec'']))
             (demo_handler ''screen'' [''run'', ''run_screen'']))
          ''/run ls -la'' None) =
     [(demo_handler ''screen'' [''run'', ''run_screen''], ''run'', [(''command'', AStr ''ls -la'')])] \<and>
   route_command
     \<lparr>handlers = [(''shell'', demo_handler ''shell'' [''run'', ''exec''])],
      command_map = [(''exec'', ''shell'')]\<rparr> ''/run ls -la'' None =
     (Inr \<lparr>success = Some False, message = Some ''Unknown command: run'', data = None,
           handler = Some ''router''\<rparr>, []) \<and>
   unregister_handler
     (register_handler
        (register_handler CommandRouter_init (demo_handler ''shell'' [''run'', ''exec'']))
        (demo_handler ''screen'' [''run'', ''run_screen'']))
     ''shell'' =
     Inr (True, \<lparr>handlers = [(''screen'', demo_handler ''screen'' [''run'', ''run_screen''])],
                 command_map = [(''run'', ''screen''), (''run_screen'', ''screen'')]\<rparr>) \<and>
   map_of (command_map
       \<lparr>handlers = [(''screen'', demo_handler ''screen'' [''run'', ''run_screen''])],
        command_map = [(''run'', ''screen''), (''run_screen'', ''screen'')]\<rparr>) ''run'' =
     Some ''screen'' \<and>
   unregister_handler
     (register_handler
        (register_handler CommandRouter_init (demo_handler ''shell'' [''run'', ''exec'']))
        (demo_handler ''screen'' [''run'', ''run_screen'']))
     ''capture'' =
     Inr (False,
          register_handler
            (register_handler CommandRouter_init (demo_handler ''shell'' [''run'', ''exec'']))
            (demo_handler ''screen'' [''run'', ''run_screen'']))"
proof -
  let ?A = "demo_handler ''shell'' [''run'', ''exec'']"
  let ?B = "demo_handler ''screen'' [''run'', ''run_screen'']"
  let ?r2 = "register_handler (register_handler CommandRouter_init ?A) ?B"
  let ?R3 = "\<lparr>handlers = [(''shell'', ?A)], command_map = [(''exec'', ''shell'')]\<rparr>"
  let ?R4 = "\<lparr>handlers = [(''screen'', ?B)],
             command_map = [(''run'', ''screen''), (''run_screen'', ''screen'')]\<rparr>"
  note th2 = reregistration_reassigns [OF apply_ops_two run_in_shell run_in_screen]
  have key: "''shell'' \<in> fst ` set (handlers ?r2)"
    by (simp add: CommandRouter_init_def register_handler_def demo_handler_def)
  have nokey: "''capture'' \<notin> fst ` set (handlers ?r2)"
    by (simp add: CommandRouter_init_def register_handler_def demo_handler_def)
  have run2: "map_of (command_map ?r2) ''run'' = Some ''screen''"
    by (simp add: CommandRouter_init_def register_handler_def demo_handler_def)
  from th2 [THEN conjunct2, THEN conjunct2, THEN conjunct2, THEN conjunct2, THEN conjunct2,
      THEN conjunct1, rule_format, OF key]
  obtain r' where u': "unregister_handler ?r2 ''shell'' = Inr (True, r')"
    and m': "\<forall>c'. map_of (command_map r') c' =
               (if map_of (command_map ?r2) c' = Some ''shell'' then None
                else map_of (command_map ?r2) c')"
    by blast
  from u' demo_unregister_shell have r': "r' = ?R4" by simp
  from m' run2 have "map_of (command_map r') ''run'' = Some ''screen''" by simp
  with r' have 5: "map_of (command_map ?R4) ''run'' = Some ''screen''" by simp
  from u' r' have 4: "unregister_handler ?r2 ''shell'' = Inr (True, ?R4)" by simp
  from th2 [THEN conjunct2, THEN conjunct2, THEN conjunct2, THEN conjunct2, THEN conjunct2,
      THEN conjunct2, rule_format, OF nokey]
  have 6: "unregister_handler ?r2 ''capture'' = Inr (False, ?r2)" .
  note th = reregistration_reassigns [OF apply_ops_Nil run_in_shell run_in_screen]
  have nA: "name ?A = ''shell''" and nB: "name ?B = ''screen''" by (simp_all add: demo_handler_def)
  from th nA have 1: "map_of (command_map (register_handler CommandRouter_init ?A)) ''run'' =
                        Some ''shell''"
    by simp
  from th [THEN conjunct2, THEN conjunct2, THEN conjunct2, THEN conjunct1, rule_format,
      OF parse_run]
  have 2: "snd (route_command ?r2 ''/run ls -la'' None) =
             [(?B, ''run'', with_context None
                 (case Some [(''command'', AStr ''ls -la'')] of None \<Rightarrow> [] | Some x \<Rightarrow> x))]"
    by simp
  from th [THEN conjunct2, THEN conjunct2, THEN conjunct2, THEN conjunct2, THEN conjunct1]
  obtain r3
    where u: "unregister_handler ?r2 (name ?B) = Inr (True, r3)"
      and k: "\<forall>t ctx a. parse_command t = Inr (''run'', a) \<longrightarrow> ''run'' \<noteq> [] \<longrightarrow>
                  route_command r3 t ctx =
                    (Inr (create_error_response (''Unknown command: '' @ ''run'')), [])"
    by blast
  from u nB demo_unregister have "r3 = ?R3" by simp
  with k parse_run
  have 3: "route_command ?R3 ''/run ls -la'' None =
             (Inr (create_error_response (''Unknown command: '' @ ''run'')), [])"
    by blast
  from 1 2 3
  have first: "map_of (command_map (register_handler CommandRouter_init ?A)) ''run'' =
                 Some ''shell'' \<and>
     snd (route_command ?r2 ''/run ls -la'' None) =
       [(?B, ''run'', [(''command'', AStr ''ls -la'')])] \<and>
     route_command ?R3 ''/run ls -la'' None =
       (Inr \<lparr>success = Some False, message = Some ''Unknown command: run'', data = None,
             handler = Some ''router''\<rparr>, [])"
    by (simp add: with_context_def create_error_response_def)
  show ?thesis
    by (rule conjI [OF first [THEN conjunct1] conjI [OF first [THEN conjunct2, THEN conjunct1]
          conjI [OF first [THEN conjunct2, THEN conjunct2] conjI [OF 4 conjI [OF 5 6]]]]])
qed

end
